theory Spec2Isabelle
  imports Complex_Main "HOL-Library.AList"
begin

section \<open>The report handler of the expense tracker\<close>

text \<open>
  This theory embeds the handler of \<^verbatim>\<open>GET /api/reports\<close> (the reports router,
  \<^verbatim>\<open>router.get('/', auth, ...)\<close>): the validation of the date range, the three aggregations
  over the expense rows, the scaling of a budget by its period, and the budget
  comparison. The line numbers in the text are those of the router's source file.

  Conventions of the embedding.
  \<^item> A number is a binary64 value: \<^verbatim>\<open>NaN\<close>, one of the two infinities, or a finite value,
    which is held as the rational number it stands for. Sums, differences and products
    are the exact results rounded to the nearest binary64 value, ties going to the even
    significand, and to an infinity beyond the largest finite value. Negative zero is
    not told apart from zero: the handler never divides, and both are written \<^verbatim>\<open>0\<close> in the
    response.
  \<^item> A time value is an integer count of milliseconds since the epoch, and so are the
    counts of days, weeks, months and years derived from it. The limit of 8.64e15 ms of
    \<^verbatim>\<open>Date\<close> is not modelled.
  \<^item> The local time zone of the server is a parameter: a fixed offset from UTC in
    minutes (no daylight saving changes).
  \<^item> \<^verbatim>\<open>Date.parse\<close> is modelled on the date-only form and on the UTC date-time form of the
    ECMAScript date-time string format; what it returns on every other string is a
    parameter.
  \<^item> \<^verbatim>\<open>categoryTotals\<close> and \<^verbatim>\<open>monthTotals\<close> are objects created by \<^verbatim>\<open>{}\<close>: their own properties
    are an association list in insertion order, and a name that is not an own property
    is looked up in \<^verbatim>\<open>Object.prototype\<close>. A property holds a number or, after \<^verbatim>\<open>+=\<close> on an
    inherited member, a string. The decimal notation of a number inside such a string is
    modelled for whole numbers below \<open>10\<^sup>2\<^sup>1\<close>; for the other numbers it is a parameter.
  \<^item> Strings are lists of 8-bit characters. A query parameter is a string or is absent
    (the arrays and objects a query string can also be parsed into are outside the model).
  \<^item> The response is described by the values handed to \<^verbatim>\<open>res.json\<close>, before they are
    written as JSON text.
  \<^item> Logging (\<^verbatim>\<open>console.log\<close>, \<^verbatim>\<open>console.warn\<close>) has no effect on the response and is left
    out. The \<^verbatim>\<open>try\<close>/\<^verbatim>\<open>catch\<close> blocks around the arithmetic never fire, since the
    operations inside them do not throw; the only exceptions are those of the two
    fetches.
\<close>

subsection \<open>Numbers\<close>

datatype jsnum = NaN | PInf | NInf | Num rat

text \<open>
  Rounding to binary64. \<open>ilog2 x\<close> is the exponent of a positive \<open>x\<close>, the integer \<open>e\<close>
  with \<open>2\<^sup>e \<le> x < 2\<^sup>e\<^sup>+\<^sup>1\<close> (lemma \<open>ilog2_bounds\<close> below). A value of exponent \<open>e\<close> is rounded
  to a multiple of \<open>2\<^sup>e\<^sup>-\<^sup>5\<^sup>2\<close>, a half going to the even multiple; below the exponent
  \<open>-1022\<close> the spacing stays that of \<open>-1022\<close> (the subnormal numbers), and a result of
  \<open>2\<^sup>1\<^sup>0\<^sup>2\<^sup>4\<close> or more is an infinity.
\<close>

definition pow2 :: "int \<Rightarrow> rat" where
  "pow2 e = (if 0 \<le> e then 2 ^ nat e else 1 / 2 ^ nat (- e))"

function ilog2 :: "rat \<Rightarrow> int" where
  "ilog2 x =
     (if x \<le> 0 then 0
      else if x < 1 then ilog2 (2 * x) - 1
      else if 2 \<le> x then ilog2 (x / 2) + 1
      else 0)"
  by pat_completeness auto
termination
proof (relation "measure (\<lambda>x. if x < 1 then nat \<lceil>1 / x\<rceil> else nat \<lfloor>x\<rfloor>)")
  show "wf (measure (\<lambda>x::rat. if x < 1 then nat \<lceil>1 / x\<rceil> else nat \<lfloor>x\<rfloor>))" by simp
next
  fix x :: rat
  assume a: "\<not> x \<le> 0" "x < 1"
  have c: "2 \<le> \<lceil>1 / x\<rceil>"
  proof -
    have "1 < 1 / x" using a by simp
    then have "1 < \<lceil>1 / x\<rceil>" by (simp add: less_ceiling_iff)
    then show ?thesis by simp
  qed
  show "(2 * x, x) \<in> measure (\<lambda>x. if x < 1 then nat \<lceil>1 / x\<rceil> else nat \<lfloor>x\<rfloor>)"
  proof (cases "2 * x < 1")
    case True
    have "1 / (2 * x) = (1 / x) / 2" by simp
    also have "\<dots> \<le> of_int \<lceil>1 / x\<rceil> / 2" by (simp add: divide_right_mono)
    also have "\<dots> \<le> of_int (\<lceil>1 / x\<rceil> - 1)" using c by simp
    finally have "\<lceil>1 / (2 * x)\<rceil> \<le> \<lceil>1 / x\<rceil> - 1" by (simp only: ceiling_le_iff)
    then show ?thesis using True a c by simp
  next
    case False
    have "\<lfloor>2 * x\<rfloor> = 1" using False a by (simp add: floor_eq_iff)
    then show ?thesis using False a c by simp
  qed
next
  fix x :: rat
  assume a: "\<not> x \<le> 0" "\<not> x < 1" "2 \<le> x"
  have "x / 2 \<le> x - 1" using a by simp
  then have "\<lfloor>x / 2\<rfloor> \<le> \<lfloor>x - 1\<rfloor>" by (rule floor_mono)
  then have "\<lfloor>x / 2\<rfloor> < \<lfloor>x\<rfloor>" by simp
  moreover have "0 < \<lfloor>x\<rfloor>" using a by simp
  ultimately show "(x / 2, x) \<in> measure (\<lambda>x. if x < 1 then nat \<lceil>1 / x\<rceil> else nat \<lfloor>x\<rfloor>)"
    using a by simp
qed

declare ilog2.simps [simp del]

definition round_half_even :: "rat \<Rightarrow> int" where
  "round_half_even q =
     (let f = \<lfloor>q\<rfloor>; d = q - of_int f
      in if d < 1 / 2 then f else if 1 / 2 < d then f + 1
         else if even f then f else f + 1)"

definition round64 :: "rat \<Rightarrow> jsnum" where
  "round64 x =
     (if x = 0 then Num 0
      else
        (let e = max (ilog2 \<bar>x\<bar>) (- 1022);
             u = pow2 (e - 52);
             r = of_int (round_half_even (\<bar>x\<bar> / u)) * u
         in if pow2 1024 \<le> r then (if x < 0 then NInf else PInf)
            else Num (if x < 0 then - r else r)))"

text \<open>The arithmetic of the handler: \<^verbatim>\<open>-x\<close>, \<^verbatim>\<open>x + y\<close>, \<^verbatim>\<open>x - y\<close> and \<^verbatim>\<open>x * y\<close> on numbers.\<close>

definition fneg :: "jsnum \<Rightarrow> jsnum" where
  "fneg x = (case x of NaN \<Rightarrow> NaN | PInf \<Rightarrow> NInf | NInf \<Rightarrow> PInf | Num a \<Rightarrow> Num (- a))"

definition fadd :: "jsnum \<Rightarrow> jsnum \<Rightarrow> jsnum" where
  "fadd x y =
     (case x of
        NaN \<Rightarrow> NaN
      | PInf \<Rightarrow> (case y of NaN \<Rightarrow> NaN | NInf \<Rightarrow> NaN | _ \<Rightarrow> PInf)
      | NInf \<Rightarrow> (case y of NaN \<Rightarrow> NaN | PInf \<Rightarrow> NaN | _ \<Rightarrow> NInf)
      | Num a \<Rightarrow> (case y of Num b \<Rightarrow> round64 (a + b) | _ \<Rightarrow> y))"

definition fsub :: "jsnum \<Rightarrow> jsnum \<Rightarrow> jsnum" where
  "fsub x y = fadd x (fneg y)"

text \<open>An infinity of the given sign times \<open>y\<close>.\<close>

definition infinity_times :: "bool \<Rightarrow> jsnum \<Rightarrow> jsnum" where
  "infinity_times positive y =
     (case y of
        NaN \<Rightarrow> NaN
      | PInf \<Rightarrow> if positive then PInf else NInf
      | NInf \<Rightarrow> if positive then NInf else PInf
      | Num b \<Rightarrow> if b = 0 then NaN else if (0 < b) = positive then PInf else NInf)"

definition fmul :: "jsnum \<Rightarrow> jsnum \<Rightarrow> jsnum" where
  "fmul x y =
     (case x of
        NaN \<Rightarrow> NaN
      | PInf \<Rightarrow> infinity_times True y
      | NInf \<Rightarrow> infinity_times False y
      | Num a \<Rightarrow>
          (case y of
             NaN \<Rightarrow> NaN
           | PInf \<Rightarrow> infinity_times True x
           | NInf \<Rightarrow> infinity_times False x
           | Num b \<Rightarrow> round64 (a * b)))"

subsection \<open>Column values\<close>

text \<open>The value of a \<^verbatim>\<open>DECIMAL\<close> column as the handler finds it in a row.\<close>

datatype jsval = JNull | JNumber jsnum | JString string

text \<open>\<^verbatim>\<open>!v\<close>: the values that count as false.\<close>

fun falsy :: "jsval \<Rightarrow> bool" where
  "falsy JNull = True"
| "falsy (JNumber n) = (n = NaN \<or> n = Num 0)"
| "falsy (JString s) = (s = [])"

text \<open>\<^verbatim>\<open>v || 0\<close>\<close>

definition or_zero :: "jsval \<Rightarrow> jsval" where
  "or_zero v = (if falsy v then JNumber (Num 0) else v)"

subsection \<open>Decimal digits\<close>

definition digit_of :: "char \<Rightarrow> int option" where
  "digit_of c = map_of (zip ''0123456789'' [0, 1, 2, 3, 4, 5, 6, 7, 8, 9]) c"

definition is_digit :: "char \<Rightarrow> bool" where
  "is_digit c = (digit_of c \<noteq> None)"

fun digits_value :: "int \<Rightarrow> string \<Rightarrow> int" where
  "digits_value acc [] = acc"
| "digits_value acc (c # cs) =
     digits_value (10 * acc + (case digit_of c of Some d \<Rightarrow> d | None \<Rightarrow> 0)) cs"

text \<open>A string of decimal digits only, and at least one.\<close>

definition number_of :: "string \<Rightarrow> int option" where
  "number_of s = (if s \<noteq> [] \<and> list_all is_digit s then Some (digits_value 0 s) else None)"

definition digit_char :: "nat \<Rightarrow> char" where
  "digit_char n = ''0123456789'' ! n"

fun dec_nat :: "nat \<Rightarrow> string" where
  "dec_nat n = (if n < 10 then [digit_char n] else dec_nat (n div 10) @ [digit_char (n mod 10)])"

declare dec_nat.simps [simp del]

text \<open>\<^verbatim>\<open>n.toString()\<close> for an integer.\<close>

definition toString_int :: "int \<Rightarrow> string" where
  "toString_int i = (if i < 0 then CHR ''-'' # dec_nat (nat (- i)) else dec_nat (nat i))"

text \<open>\<^verbatim>\<open>s.padStart(2, '0')\<close>\<close>

definition padStart2 :: "string \<Rightarrow> string" where
  "padStart2 s = replicate (2 - length s) CHR ''0'' @ s"

subsection \<open>\<^verbatim>\<open>parseFloat\<close> and the conversion of a string to a number\<close>

text \<open>
  \<^verbatim>\<open>parseFloat\<close> skips leading white space and reads the longest prefix that is a
  decimal literal: an optional sign, then \<^verbatim>\<open>Infinity\<close> or digits with an optional fraction
  (or a fraction alone), and an exponent when it is complete. A string with no such
  prefix gives \<^verbatim>\<open>NaN\<close>. The value read is rounded to binary64.
\<close>

definition is_space :: "char \<Rightarrow> bool" where
  "is_space c = (c \<in> set [CHR '' '', CHR 0x09, CHR 0x0A, CHR 0x0B, CHR 0x0C, CHR 0x0D])"

definition pow10 :: "int \<Rightarrow> rat" where
  "pow10 e = (if 0 \<le> e then 10 ^ nat e else 1 / 10 ^ nat (- e))"

text \<open>
  The exponent at the start of \<open>s\<close> and what follows it. An \<^verbatim>\<open>e\<close> that no digit follows is
  not part of the literal: the exponent is 0 and nothing is consumed.
\<close>

definition exponent_part :: "string \<Rightarrow> int \<times> string" where
  "exponent_part s =
     (case s of
        [] \<Rightarrow> (0, s)
      | c # r \<Rightarrow>
          if c = CHR ''e'' \<or> c = CHR ''E'' then
            (let negative = (r \<noteq> [] \<and> hd r = CHR ''-'');
                 ds = (if r \<noteq> [] \<and> (hd r = CHR ''-'' \<or> hd r = CHR ''+'') then tl r else r);
                 n = digits_value 0 (takeWhile is_digit ds)
             in if takeWhile is_digit ds = [] then (0, s)
                else (if negative then - n else n, dropWhile is_digit ds))
          else (0, s))"

text \<open>The unsigned literal at the start of \<open>s\<close> and what follows it.\<close>

definition magnitude :: "string \<Rightarrow> jsnum \<times> string" where
  "magnitude s =
     (if take 8 s = ''Infinity'' then (PInf, drop 8 s)
      else
        (let ip = takeWhile is_digit s; r1 = dropWhile is_digit s
         in if r1 \<noteq> [] \<and> hd r1 = CHR ''.'' then
              (let fp = takeWhile is_digit (tl r1); r2 = dropWhile is_digit (tl r1)
               in if ip = [] \<and> fp = [] then (NaN, s)
                  else (round64 ((of_int (digits_value 0 ip)
                                    + of_int (digits_value 0 fp) / 10 ^ length fp)
                                 * pow10 (fst (exponent_part r2))),
                        snd (exponent_part r2)))
            else if ip = [] then (NaN, s)
            else (round64 (of_int (digits_value 0 ip) * pow10 (fst (exponent_part r1))),
                  snd (exponent_part r1))))"

text \<open>The signed literal at the start of \<open>s\<close> and what follows it.\<close>

definition signed_literal :: "string \<Rightarrow> jsnum \<times> string" where
  "signed_literal s =
     (case s of
        [] \<Rightarrow> (NaN, s)
      | c # r \<Rightarrow>
          if c = CHR ''-'' then (fneg (fst (magnitude r)), snd (magnitude r))
          else if c = CHR ''+'' then magnitude r
          else magnitude s)"

definition parseFloat_string :: "string \<Rightarrow> jsnum" where
  "parseFloat_string s = fst (signed_literal (dropWhile is_space s))"

text \<open>
  \<^verbatim>\<open>parseFloat(v)\<close> converts its argument to a string first: \<^verbatim>\<open>null\<close> becomes \<^verbatim>\<open>"null"\<close>,
  which has no numeric prefix, and a number is read back as itself.
\<close>

fun parseFloat :: "jsval \<Rightarrow> jsnum" where
  "parseFloat JNull = NaN"
| "parseFloat (JNumber n) = n"
| "parseFloat (JString s) = parseFloat_string s"

text \<open>
  The number a string stands for in arithmetic (\<^verbatim>\<open>x - s\<close>): white space is trimmed at
  both ends, the empty string is 0, and the rest must be a decimal literal as a whole,
  or else the result is \<^verbatim>\<open>NaN\<close>. The literals in base 16, 8 and 2 are not modelled; no
  string that the handler builds begins with a digit.
\<close>

definition StringToNumber :: "string \<Rightarrow> jsnum" where
  "StringToNumber s =
     (let t = rev (dropWhile is_space (rev (dropWhile is_space s)))
      in if t = [] then Num 0
         else if snd (signed_literal t) = [] then fst (signed_literal t)
         else NaN)"

text \<open>
  \<^verbatim>\<open>String(n)\<close>, the decimal notation of a number. A whole number below \<open>10\<^sup>2\<^sup>1\<close> is written
  with its digits; how the other finite numbers are written is the parameter
  \<open>fmt\<close>.
\<close>

definition Number_toString :: "(rat \<Rightarrow> string) \<Rightarrow> jsnum \<Rightarrow> string" where
  "Number_toString fmt n =
     (case n of
        NaN \<Rightarrow> ''NaN''
      | PInf \<Rightarrow> ''Infinity''
      | NInf \<Rightarrow> ''-Infinity''
      | Num r \<Rightarrow>
          if of_int \<lfloor>r\<rfloor> = r \<and> \<bar>r\<bar> < 10 ^ 21 then toString_int \<lfloor>r\<rfloor> else fmt r)"

subsection \<open>Days, years and months (ECMAScript, Time Values and Time Range)\<close>

definition msPerDay :: int where "msPerDay = 86400000"

definition msPerMinute :: int where "msPerMinute = 60000"

definition Day :: "int \<Rightarrow> int" where
  "Day t = t div msPerDay"

definition TimeWithinDay :: "int \<Rightarrow> int" where
  "TimeWithinDay t = t mod msPerDay"

definition DaysInYear :: "int \<Rightarrow> int" where
  "DaysInYear y =
     (if y mod 4 \<noteq> 0 then 365 else if y mod 100 \<noteq> 0 then 366
      else if y mod 400 \<noteq> 0 then 365 else 366)"

definition DayFromYear :: "int \<Rightarrow> int" where
  "DayFromYear y =
     365 * (y - 1970) + (y - 1969) div 4 - (y - 1901) div 100 + (y - 1601) div 400"

text \<open>
  The year of a day number is the largest \<open>y\<close> with \<open>DayFromYear y \<le> d\<close>. It is computed
  from an estimate that is off by at most one (lemmas \<open>YearFromDay_lower\<close>,
  \<open>YearFromDay_upper\<close> and \<open>YearFromDay_unique\<close> below).
\<close>

definition YearFromDay :: "int \<Rightarrow> int" where
  "YearFromDay d =
     (let y0 = 1970 + (400 * d) div 146097
      in if d < DayFromYear y0 then y0 - 1
         else if DayFromYear (y0 + 1) \<le> d then y0 + 1
         else y0)"

definition InLeapYear :: "int \<Rightarrow> int" where
  "InLeapYear d = (if DaysInYear (YearFromDay d) = 366 then 1 else 0)"

definition DayWithinYear :: "int \<Rightarrow> int" where
  "DayWithinYear d = d - DayFromYear (YearFromDay d)"

text \<open>The first day of month \<open>m\<close> (0 to 11) within a year; \<open>l\<close> is 1 in a leap year.\<close>

definition MonthStart :: "int \<Rightarrow> int \<Rightarrow> int" where
  "MonthStart l m =
     (if m = 0 then 0 else if m = 1 then 31 else if m = 2 then 59 + l
      else if m = 3 then 90 + l else if m = 4 then 120 + l else if m = 5 then 151 + l
      else if m = 6 then 181 + l else if m = 7 then 212 + l else if m = 8 then 243 + l
      else if m = 9 then 273 + l else if m = 10 then 304 + l else 334 + l)"

definition MonthFromDay :: "int \<Rightarrow> int" where
  "MonthFromDay d =
     (let w = DayWithinYear d; l = InLeapYear d
      in if w < 31 then 0 else if w < 59 + l then 1 else if w < 90 + l then 2
         else if w < 120 + l then 3 else if w < 151 + l then 4 else if w < 181 + l then 5
         else if w < 212 + l then 6 else if w < 243 + l then 7 else if w < 273 + l then 8
         else if w < 304 + l then 9 else if w < 334 + l then 10 else 11)"

definition DateFromDay :: "int \<Rightarrow> int" where
  "DateFromDay d = DayWithinYear d - MonthStart (InLeapYear d) (MonthFromDay d) + 1"

definition DaysInMonth :: "int \<Rightarrow> int \<Rightarrow> int" where
  "DaysInMonth y m =
     (if m = 1 then (if DaysInYear y = 366 then 29 else 28)
      else if m = 3 \<or> m = 5 \<or> m = 8 \<or> m = 10 then 30 else 31)"

text \<open>\<open>MakeDay year month date\<close>, with \<open>month\<close> counted from 0.\<close>

definition MakeDay :: "int \<Rightarrow> int \<Rightarrow> int \<Rightarrow> int" where
  "MakeDay year month dt =
     (let ym = year + month div 12; mn = month mod 12
      in DayFromYear ym + MonthStart (if DaysInYear ym = 366 then 1 else 0) mn + dt - 1)"

subsection \<open>The server's clock and \<^verbatim>\<open>Date\<close>\<close>

text \<open>
  What the handler takes from its surroundings: the offset of the local zone from UTC in
  minutes, the date parser on the formats that are not modelled, and the decimal notation
  of the numbers for which it is not modelled.
\<close>

record env =
  utc_offset :: int
  other_formats :: "string \<Rightarrow> int option"
  number_format :: "rat \<Rightarrow> string"

definition LocalTime :: "env \<Rightarrow> int \<Rightarrow> int" where
  "LocalTime ev t = t + utc_offset ev * msPerMinute"

definition UTC :: "env \<Rightarrow> int \<Rightarrow> int" where
  "UTC ev t = t - utc_offset ev * msPerMinute"

definition getFullYear :: "env \<Rightarrow> int \<Rightarrow> int" where
  "getFullYear ev t = YearFromDay (Day (LocalTime ev t))"

definition getMonth :: "env \<Rightarrow> int \<Rightarrow> int" where
  "getMonth ev t = MonthFromDay (Day (LocalTime ev t))"

definition getDate :: "env \<Rightarrow> int \<Rightarrow> int" where
  "getDate ev t = DateFromDay (Day (LocalTime ev t))"

text \<open>\<^verbatim>\<open>d.setDate(dt)\<close>: the day of the month is replaced, in local time.\<close>

definition setDate :: "env \<Rightarrow> int \<Rightarrow> int \<Rightarrow> int" where
  "setDate ev dt t =
     (let lt = LocalTime ev t; d = Day lt
      in UTC ev (MakeDay (YearFromDay d) (MonthFromDay d) dt * msPerDay + TimeWithinDay lt))"

text \<open>
  The two forms of the date-time string format that are modelled: \<^verbatim>\<open>YYYY-MM-DD\<close>, which is
  midnight UTC of that day, and \<^verbatim>\<open>YYYY-MM-DDTHH:mm:ssZ\<close>. A field out of range makes the
  string one of the other formats.
\<close>

definition iso_date :: "string \<Rightarrow> int option" where
  "iso_date s =
     (if length s = 10 \<and> s ! 4 = CHR ''-'' \<and> s ! 7 = CHR ''-'' then
        (case (number_of (take 4 s), number_of (take 2 (drop 5 s)), number_of (drop 8 s)) of
           (Some y, Some m, Some d) \<Rightarrow>
             if 1 \<le> m \<and> m \<le> 12 \<and> 1 \<le> d \<and> d \<le> DaysInMonth y (m - 1)
             then Some (MakeDay y (m - 1) d)
             else None
         | _ \<Rightarrow> None)
      else None)"

definition iso_time :: "string \<Rightarrow> int option" where
  "iso_time s =
     (if length s = 10 \<and> s ! 0 = CHR ''T'' \<and> s ! 3 = CHR '':'' \<and> s ! 6 = CHR '':''
         \<and> s ! 9 = CHR ''Z'' then
        (case (number_of (take 2 (drop 1 s)), number_of (take 2 (drop 4 s)),
               number_of (take 2 (drop 7 s))) of
           (Some h, Some m, Some sec) \<Rightarrow>
             if h \<le> 23 \<and> m \<le> 59 \<and> sec \<le> 59
             then Some (h * 3600000 + m * 60000 + sec * 1000)
             else None
         | _ \<Rightarrow> None)
      else None)"

definition iso_date_time :: "string \<Rightarrow> int option" where
  "iso_date_time s =
     (if length s = 10 then map_option (\<lambda>d. d * msPerDay) (iso_date s)
      else (case (iso_date (take 10 s), iso_time (drop 10 s)) of
              (Some d, Some t) \<Rightarrow> Some (d * msPerDay + t)
            | _ \<Rightarrow> None))"

text \<open>\<^verbatim>\<open>new Date(s).getTime()\<close> for a string \<open>s\<close>; \<open>None\<close> stands for an invalid date.\<close>

definition Date_parse :: "env \<Rightarrow> string \<Rightarrow> int option" where
  "Date_parse ev s =
     (case iso_date_time s of Some t \<Rightarrow> Some t | None \<Rightarrow> other_formats ev s)"

text \<open>\<^verbatim>\<open>new Date(v)\<close> for a column value: \<^verbatim>\<open>new Date(null)\<close> is the epoch.\<close>

definition Date_of_column :: "env \<Rightarrow> string option \<Rightarrow> int option" where
  "Date_of_column ev v = (case v of None \<Rightarrow> Some 0 | Some s \<Rightarrow> Date_parse ev s)"

text \<open>\<^verbatim>\<open>new Date(v)\<close> for a query parameter: \<^verbatim>\<open>new Date(undefined)\<close> is an invalid date.\<close>

definition Date_of_query :: "env \<Rightarrow> string option \<Rightarrow> int option" where
  "Date_of_query ev q = (case q of None \<Rightarrow> None | Some s \<Rightarrow> Date_parse ev s)"

subsection \<open>Objects as dictionaries\<close>

text \<open>
  What a property of \<^verbatim>\<open>categoryTotals\<close> or \<^verbatim>\<open>monthTotals\<close> can hold, and what reading a
  property can give: a number, a string, a function inherited from \<^verbatim>\<open>Object.prototype\<close>
  (given by its name), or \<^verbatim>\<open>Object.prototype\<close> itself.
\<close>

datatype jsany = Number jsnum | Text string | Function string | ObjectPrototype

type_synonym totals = "(string \<times> jsany) list"

text \<open>
  The members of \<^verbatim>\<open>Object.prototype\<close>: the accessor \<^verbatim>\<open>__proto__\<close>, whose getter gives the
  prototype of the object, and eleven functions, each listed with its property name and
  its function name.
\<close>

definition Object_prototype_functions :: "(string \<times> string) list" where
  "Object_prototype_functions =
     [(''constructor'', ''Object''),
      (''__defineGetter__'', ''__defineGetter__''),
      (''__defineSetter__'', ''__defineSetter__''),
      (''hasOwnProperty'', ''hasOwnProperty''),
      (''__lookupGetter__'', ''__lookupGetter__''),
      (''__lookupSetter__'', ''__lookupSetter__''),
      (''isPrototypeOf'', ''isPrototypeOf''),
      (''propertyIsEnumerable'', ''propertyIsEnumerable''),
      (''toString'', ''toString''),
      (''valueOf'', ''valueOf''),
      (''toLocaleString'', ''toLocaleString'')]"

definition inherited :: "string \<Rightarrow> jsany option" where
  "inherited k =
     (if k = ''__proto__'' then Some ObjectPrototype
      else map_option Function (map_of Object_prototype_functions k))"

text \<open>\<^verbatim>\<open>totals[k]\<close>: the own property, or else the inherited one; \<open>None\<close> is \<^verbatim>\<open>undefined\<close>.\<close>

definition get_property :: "totals \<Rightarrow> string \<Rightarrow> jsany option" where
  "get_property t k = (case map_of t k of Some v \<Rightarrow> Some v | None \<Rightarrow> inherited k)"

text \<open>
  \<^verbatim>\<open>totals[k] = v\<close> for a number or a string \<open>v\<close>. An own property is created or
  overwritten; a new one goes to the end. The name \<^verbatim>\<open>__proto__\<close> is the exception: the
  assignment calls the setter of the accessor, which ignores a value that is neither an
  object nor \<^verbatim>\<open>null\<close>.
\<close>

definition set_property :: "string \<Rightarrow> jsany \<Rightarrow> totals \<Rightarrow> totals" where
  "set_property k v t = (if k = ''__proto__'' then t else AList.update k v t)"

text \<open>\<^verbatim>\<open>!totals[k]\<close>\<close>

definition falsy_property :: "jsany option \<Rightarrow> bool" where
  "falsy_property p =
     (case p of
        None \<Rightarrow> True
      | Some (Number n) \<Rightarrow> n = NaN \<or> n = Num 0
      | Some (Text s) \<Rightarrow> s = []
      | Some (Function f) \<Rightarrow> False
      | Some ObjectPrototype \<Rightarrow> False)"

text \<open>
  The string a function or \<^verbatim>\<open>Object.prototype\<close> turns into when it is an operand of \<^verbatim>\<open>+\<close>
  or \<^verbatim>\<open>-\<close>.
\<close>

definition function_source :: "string \<Rightarrow> string" where
  "function_source f = ''function '' @ f @ ''() { [native code] }''"

definition object_string :: string where
  "object_string = ''[object Object]''"

text \<open>
  \<^verbatim>\<open>p + a\<close> for what a property read gave and a number \<open>a\<close>: the sum of two numbers, and a
  concatenation of strings when \<open>p\<close> is a string, a function or an object.
\<close>

definition js_plus :: "env \<Rightarrow> jsany option \<Rightarrow> jsnum \<Rightarrow> jsany" where
  "js_plus ev p a =
     (case p of
        None \<Rightarrow> Number NaN
      | Some (Number n) \<Rightarrow> Number (fadd n a)
      | Some (Text s) \<Rightarrow> Text (s @ Number_toString (number_format ev) a)
      | Some (Function f) \<Rightarrow> Text (function_source f @ Number_toString (number_format ev) a)
      | Some ObjectPrototype \<Rightarrow> Text (object_string @ Number_toString (number_format ev) a))"

text \<open>\<^verbatim>\<open>if (!totals[k]) { totals[k] = 0; }  totals[k] += a;\<close>\<close>

definition add_amount :: "env \<Rightarrow> string \<Rightarrow> jsnum \<Rightarrow> totals \<Rightarrow> totals" where
  "add_amount ev k a t =
     (let t0 = (if falsy_property (get_property t k) then set_property k (Number (Num 0)) t else t)
      in set_property k (js_plus ev (get_property t0 k) a) t0)"

text \<open>\<^verbatim>\<open>totals[k] || 0\<close>\<close>

definition lookup_or_zero :: "totals \<Rightarrow> string \<Rightarrow> jsany" where
  "lookup_or_zero t k =
     (case get_property t k of
        None \<Rightarrow> Number (Num 0)
      | Some v \<Rightarrow> if falsy_property (Some v) then Number (Num 0) else v)"

text \<open>The number that \<^verbatim>\<open>x - v\<close> takes \<open>v\<close> for.\<close>

definition ToNumber :: "jsany \<Rightarrow> jsnum" where
  "ToNumber v =
     (case v of
        Number n \<Rightarrow> n
      | Text s \<Rightarrow> StringToNumber s
      | Function f \<Rightarrow> StringToNumber (function_source f)
      | ObjectPrototype \<Rightarrow> StringToNumber object_string)"

text \<open>
  \<^verbatim>\<open>Object.keys\<close> lists the own keys that are array indices first, in ascending numeric
  order, and then the other keys in insertion order.
\<close>

definition is_array_index :: "string \<Rightarrow> bool" where
  "is_array_index s =
     (case s of
        [] \<Rightarrow> False
      | c # r \<Rightarrow>
          list_all is_digit s \<and> (if c = CHR ''0'' then r = [] else True)
          \<and> digits_value 0 s < 4294967295)"

definition entries :: "totals \<Rightarrow> (string \<times> jsany) list" where
  "entries t =
     sort_key (\<lambda>p. digits_value 0 (fst p)) (filter (\<lambda>p. is_array_index (fst p)) t)
     @ filter (\<lambda>p. \<not> is_array_index (fst p)) t"

subsection \<open>Rows, report and response\<close>

text \<open>
  The rows as the ORM hands them over. Only the attributes the handler reads are kept.
  A \<^verbatim>\<open>DECIMAL\<close> column arrives as a string, or as a number where the model has a getter;
  \<open>None\<close> in a string column stands for \<^verbatim>\<open>null\<close>.
\<close>

record row =
  amount :: jsval
  category :: "string option"

record Expense = row +
  date :: "string option"

record Budget = row +
  period :: "string option"

text \<open>
  One entry of \<^verbatim>\<open>budgetComparison\<close>; \<open>cat\<close> is its \<^verbatim>\<open>category\<close>. The \<open>actual\<close> is what the
  lookup in \<^verbatim>\<open>categoryTotals\<close> gave.
\<close>

record comparison =
  cat :: string
  budget :: jsnum
  actual :: jsany
  difference :: jsnum

text \<open>
  The \<^verbatim>\<open>data\<close> of a successful response. An entry of \<^verbatim>\<open>expensesByCategory\<close> or of
  \<^verbatim>\<open>expensesByMonth\<close> is a pair of its key and its amount.
\<close>

record report =
  totalExpenses :: jsnum
  expensesByCategory :: "(string \<times> jsany) list"
  expensesByMonth :: "(string \<times> jsany) list"
  budgetComparison :: "comparison list"

datatype response =
  Json_200 report
| Json_400 string
| Json_500 string

text \<open>The three messages of a rejected date range, under the names of the specification.\<close>

definition InvalidInput :: response where
  "InvalidInput = Json_400 ''Please provide startDate and endDate''"

definition InvalidFormat :: response where
  "InvalidFormat = Json_400 ''Invalid date format''"

definition InvalidRange :: response where
  "InvalidRange = Json_400 ''End date cannot be before start date''"

definition ServerError :: response where
  "ServerError = Json_500 ''Server error generating report''"

text \<open>
  The record store. A fetch that throws is \<open>None\<close>. The calls the handler makes are
  logged in the order it makes them.
\<close>

record store =
  Expense_findAll :: "nat \<Rightarrow> int \<Rightarrow> int \<Rightarrow> Expense list option"
  Budget_findAll :: "nat \<Rightarrow> Budget list option"

datatype call = FetchExpenses nat int int | FetchBudgets nat

subsection \<open>Validation of the date range\<close>

text \<open>
  Lines 12 to 40. \<^verbatim>\<open>!startDate\<close> holds for a query parameter that is absent or the empty
  string. The three checks are made in the order of the source, and each one answers with
  status 400 and its message.
\<close>

definition missing :: "string option \<Rightarrow> bool" where
  "missing q = (case q of None \<Rightarrow> True | Some s \<Rightarrow> s = [])"

definition validate :: "env \<Rightarrow> string option \<Rightarrow> string option \<Rightarrow> response + int \<times> int" where
  "validate ev startDate endDate =
     (if missing startDate \<or> missing endDate then Inl InvalidInput
      else (case (Date_of_query ev startDate, Date_of_query ev endDate) of
              (Some start, Some end) \<Rightarrow>
                if end < start then Inl InvalidRange else Inr (start, end)
            | _ \<Rightarrow> Inl InvalidFormat))"

subsection \<open>Aggregation\<close>

text \<open>
  Lines 85 to 95: \<^verbatim>\<open>expenses.reduce((sum, expense) => ..., 0)\<close>, where an amount that is
  \<^verbatim>\<open>NaN\<close> leaves the sum as it is.
\<close>

definition total_step :: "jsnum \<Rightarrow> Expense \<Rightarrow> jsnum" where
  "total_step acc expense =
     (let a = parseFloat (or_zero (amount expense))
      in if a = NaN then acc else fadd acc a)"

definition calc_totalExpenses :: "Expense list \<Rightarrow> jsnum" where
  "calc_totalExpenses expenses = foldl total_step (Num 0) expenses"

text \<open>
  Lines 98 to 138: the loop over the expenses that fills \<^verbatim>\<open>categoryTotals\<close>. The category
  is \<^verbatim>\<open>expense.category || 'other'\<close>; an expense whose amount is \<^verbatim>\<open>NaN\<close> is skipped.
\<close>

definition category_or_other :: "string option \<Rightarrow> string" where
  "category_or_other c = (case c of None \<Rightarrow> ''other'' | Some s \<Rightarrow> if s = [] then ''other'' else s)"

definition category_step :: "env \<Rightarrow> totals \<Rightarrow> Expense \<Rightarrow> totals" where
  "category_step ev categoryTotals expense =
     (let c = category_or_other (category expense);
          a = parseFloat (or_zero (amount expense))
      in if a = NaN then categoryTotals else add_amount ev c a categoryTotals)"

definition calc_categoryTotals :: "env \<Rightarrow> Expense list \<Rightarrow> totals" where
  "calc_categoryTotals ev expenses = foldl (category_step ev) [] expenses"

text \<open>
  Lines 141 to 197: the loop over the expenses that fills \<^verbatim>\<open>monthTotals\<close>. An expense
  whose date is invalid is skipped, and so is one whose amount is \<^verbatim>\<open>NaN\<close>. The key of a
  month is the local year, a dash, and the local month in two digits.
\<close>

definition month_key :: "env \<Rightarrow> int \<Rightarrow> string" where
  "month_key ev t =
     toString_int (getFullYear ev t) @ ''-'' @ padStart2 (toString_int (getMonth ev t + 1))"

definition month_step :: "env \<Rightarrow> totals \<Rightarrow> Expense \<Rightarrow> totals" where
  "month_step ev monthTotals expense =
     (case Date_of_column ev (date expense) of
        None \<Rightarrow> monthTotals
      | Some d \<Rightarrow>
          (let a = parseFloat (or_zero (amount expense))
           in if a = NaN then monthTotals else add_amount ev (month_key ev d) a monthTotals))"

definition calc_monthTotals :: "env \<Rightarrow> Expense list \<Rightarrow> totals" where
  "calc_monthTotals ev expenses = foldl (month_step ev) [] expenses"

subsection \<open>Scaling a budget by its period\<close>

text \<open>\<^verbatim>\<open>Math.ceil(a / b)\<close> for integers \<open>a\<close> and \<open>b > 0\<close>.\<close>

definition ceil_div :: "int \<Rightarrow> int \<Rightarrow> int" where
  "ceil_div a b = - ((- a) div b)"

text \<open>
  Lines 231 to 290. The month count of the monthly branch (lines 241 to 250, \<^verbatim>\<open>months\<close>
  before the maximum is taken) and of the quarterly branch (lines 266 to 272,
  \<^verbatim>\<open>monthDiff\<close>) is the same expression.
\<close>

definition monthDiff :: "env \<Rightarrow> int \<Rightarrow> int \<Rightarrow> int" where
  "monthDiff ev start end =
     (let startDate = setDate ev 1 start; endDate = setDate ev 1 end
      in (getFullYear ev endDate - getFullYear ev startDate) * 12
         + (getMonth ev endDate - getMonth ev startDate) + 1)"

text \<open>\<^verbatim>\<open>budget.period || 'monthly'\<close>\<close>

definition period_or_monthly :: "string option \<Rightarrow> string" where
  "period_or_monthly p =
     (case p of None \<Rightarrow> ''monthly'' | Some s \<Rightarrow> if s = [] then ''monthly'' else s)"

definition adjustedBudgetAmount :: "env \<Rightarrow> int \<Rightarrow> int \<Rightarrow> string option \<Rightarrow> jsnum \<Rightarrow> jsnum" where
  "adjustedBudgetAmount ev start end p budgetAmount =
     (let period = period_or_monthly p
      in if period = ''monthly'' then
           (let months = max 1 (monthDiff ev start end)
            in fmul budgetAmount (Num (of_int months)))
         else if period = ''weekly'' then
           (let diffTime = max 0 (end - start);
                days = ceil_div diffTime (1000 * 60 * 60 * 24);
                weeks = max 1 (ceil_div days 7)
            in fmul budgetAmount (Num (of_int weeks)))
         else if period = ''quarterly'' then
           (let quarters = max 1 (ceil_div (monthDiff ev start end) 3)
            in fmul budgetAmount (Num (of_int quarters)))
         else if period = ''yearly'' then
           (let yearDiff = getFullYear ev end - getFullYear ev start;
                years = max 1 (yearDiff +
                  (if getMonth ev end > getMonth ev start
                      \<or> (getMonth ev end = getMonth ev start \<and> getDate ev end \<ge> getDate ev start)
                   then 1 else 0))
            in fmul budgetAmount (Num (of_int years)))
         else budgetAmount)"

subsection \<open>The budget comparison\<close>

text \<open>Lines 200 to 312. \<^verbatim>\<open>parseFloat(budget.amount)\<close>, with 0 for \<^verbatim>\<open>NaN\<close>:\<close>

definition parse_budgetAmount :: "jsval \<Rightarrow> jsnum" where
  "parse_budgetAmount v = (let a = parseFloat v in if a = NaN then Num 0 else a)"

text \<open>The body of the loop over the budgets: a budget without a category is passed over.\<close>

definition comparison_step ::
    "env \<Rightarrow> int \<Rightarrow> int \<Rightarrow> totals \<Rightarrow> comparison list \<Rightarrow> Budget \<Rightarrow> comparison list" where
  "comparison_step ev start end categoryTotals acc b =
     (case category b of
        None \<Rightarrow> acc
      | Some c \<Rightarrow>
          if c = [] then acc
          else
            (let budgetAmount = parse_budgetAmount (amount b);
                 actualAmount = lookup_or_zero categoryTotals c;
                 adjusted = adjustedBudgetAmount ev start end (period b) budgetAmount
             in acc @ [\<lparr>cat = c, budget = adjusted, actual = actualAmount,
                        difference = fsub adjusted (ToNumber actualAmount)\<rparr>]))"

definition calc_budgetComparison ::
    "env \<Rightarrow> int \<Rightarrow> int \<Rightarrow> totals \<Rightarrow> Budget list \<Rightarrow> comparison list" where
  "calc_budgetComparison ev start end categoryTotals budgets =
     foldl (comparison_step ev start end categoryTotals) [] budgets"

subsection \<open>The handler\<close>

definition build_report :: "env \<Rightarrow> int \<Rightarrow> int \<Rightarrow> Expense list \<Rightarrow> Budget list \<Rightarrow> report" where
  "build_report ev start end expenses budgets =
     (let categoryTotals = calc_categoryTotals ev expenses
      in \<lparr>totalExpenses = calc_totalExpenses expenses,
          expensesByCategory = entries categoryTotals,
          expensesByMonth = entries (calc_monthTotals ev expenses),
          budgetComparison = calc_budgetComparison ev start end categoryTotals budgets\<rparr>)"

text \<open>
  The handler for the user \<open>uid\<close> (lines 10 to 350): the response, and the calls made to
  the store. The expenses are fetched first, then the budgets (lines 51 to 82). A fetch
  that throws is rethrown as a plain \<^verbatim>\<open>Error\<close> and caught by the outer \<^verbatim>\<open>catch\<close>, which
  answers 500.
\<close>

definition handler ::
    "env \<Rightarrow> store \<Rightarrow> nat \<Rightarrow> string option \<Rightarrow> string option \<Rightarrow> call list \<times> response" where
  "handler ev db uid startDate endDate =
     (case validate ev startDate endDate of
        Inl r \<Rightarrow> ([], r)
      | Inr (start, end) \<Rightarrow>
          (case Expense_findAll db uid start end of
             None \<Rightarrow> ([FetchExpenses uid start end], ServerError)
           | Some expenses \<Rightarrow>
               (case Budget_findAll db uid of
                  None \<Rightarrow> ([FetchExpenses uid start end, FetchBudgets uid], ServerError)
                | Some budgets \<Rightarrow>
                    ([FetchExpenses uid start end, FetchBudgets uid],
                     Json_200 (build_report ev start end expenses budgets)))))"

subsection \<open>Notions used in the statements\<close>

text \<open>
  These definitions are not part of the handler. They name what the statements below
  speak about.

  The amount the handler reads from an expense is \<^verbatim>\<open>parseFloat(expense.amount || 0)\<close>; the
  amount is read when this is not \<^verbatim>\<open>NaN\<close>. The date of an expense is read when
  \<^verbatim>\<open>new Date(expense.date)\<close> is a valid date. A budget has a category when the column is
  neither \<^verbatim>\<open>null\<close> nor empty.
\<close>

definition amount_value :: "Expense \<Rightarrow> jsnum" where
  "amount_value e = parseFloat (or_zero (amount e))"

definition amount_ok :: "Expense \<Rightarrow> bool" where
  "amount_ok e = (amount_value e \<noteq> NaN)"

definition date_ok :: "env \<Rightarrow> Expense \<Rightarrow> bool" where
  "date_ok ev e = (Date_of_column ev (date e) \<noteq> None)"

definition has_category :: "Budget \<Rightarrow> bool" where
  "has_category b = (case category b of None \<Rightarrow> False | Some c \<Rightarrow> c \<noteq> [])"

text \<open>A name is ordinary when it is not the name of a member of \<^verbatim>\<open>Object.prototype\<close>.\<close>

definition ordinary :: "string \<Rightarrow> bool" where
  "ordinary k = (k \<notin> set (''__proto__'' # map fst Object_prototype_functions))"

text \<open>
  The total of a category: the amounts that are read from its expenses, added up in the
  order of the rows, starting from 0. A sum that has become \<^verbatim>\<open>NaN\<close> (an infinity plus the
  opposite infinity) starts again from 0.
\<close>

definition running_sum :: "jsnum list \<Rightarrow> jsnum" where
  "running_sum xs = foldl (\<lambda>s a. fadd (if s = NaN then Num 0 else s) a) (Num 0) xs"

definition category_total :: "Expense list \<Rightarrow> string \<Rightarrow> jsnum" where
  "category_total es c =
     running_sum
       (map amount_value (filter (\<lambda>e. amount_ok e \<and> category_or_other (category e) = c) es))"

text \<open>
  The entry that the loop over the budgets gives for a budget with a category: its
  category, its amount scaled by its period, what the lookup of the category in the
  totals gives, and the difference of the two.
\<close>

definition expected_comparison :: "env \<Rightarrow> int \<Rightarrow> int \<Rightarrow> Expense list \<Rightarrow> Budget \<Rightarrow> comparison" where
  "expected_comparison ev start end es b =
     (let c = (case category b of None \<Rightarrow> [] | Some c \<Rightarrow> c);
          adjusted = adjustedBudgetAmount ev start end (period b) (parse_budgetAmount (amount b));
          spent = lookup_or_zero (calc_categoryTotals ev es) c
      in \<lparr>cat = c, budget = adjusted, actual = spent,
          difference = fsub adjusted (ToNumber spent)\<rparr>)"

text \<open>
  The number of calendar months, in the local time of the server, from the month of the
  start to the month of the end of a range.
\<close>

definition months_spanned :: "env \<Rightarrow> int \<Rightarrow> int \<Rightarrow> int" where
  "months_spanned ev start end =
     (getFullYear ev end * 12 + getMonth ev end)
       - (getFullYear ev start * 12 + getMonth ev start) + 1"





text \<open>
  For the lemmas on the two loops that fill a dictionary: the pairs of a key and an
  amount that a loop adds, in the order of the rows; the dictionary after such pairs are
  added; the number held under a key; a dictionary whose keys are ordinary and whose
  values are numbers, or whole numbers; and the sum of the magnitudes of its values.
\<close>

definition add_all :: "env \<Rightarrow> totals \<Rightarrow> (string \<times> jsnum) list \<Rightarrow> totals" where
  "add_all ev t kas = foldl (\<lambda>t ka. add_amount ev (fst ka) (snd ka) t) t kas"

definition category_amounts :: "Expense list \<Rightarrow> (string \<times> jsnum) list" where
  "category_amounts es =
     map (\<lambda>e. (category_or_other (category e), amount_value e)) (filter amount_ok es)"


definition number_at :: "totals \<Rightarrow> string \<Rightarrow> jsnum" where
  "number_at t k = (case map_of t k of Some (Number n) \<Rightarrow> n | _ \<Rightarrow> Num 0)"

definition numeric :: "totals \<Rightarrow> bool" where
  "numeric t =
     list_all (\<lambda>p. ordinary (fst p) \<and> (case snd p of Number n \<Rightarrow> True | _ \<Rightarrow> False)) t"




subsection \<open>Concrete inputs\<close>

text \<open>
  A date parser that knows no other format and a number format that is never asked for,
  three server zones, the rows of the scenario of the specification, a store that returns
  given rows and one whose fetches fail. Then single rows with a defect or an edge value:
  an expense whose date is the zero date of the database, one whose amount is not a
  number, one of amount zero, one without an amount, one without a category and one of 50
  under a given category; three expenses with cents; budgets with a weekly, an unknown
  and a missing period, one without a category, and one whose category is the name of a
  member of \<^verbatim>\<open>Object.prototype\<close>.
\<close>

definition no_other_formats :: "string \<Rightarrow> int option" where
  "no_other_formats s = None"

definition no_number_format :: "rat \<Rightarrow> string" where
  "no_number_format r = []"

definition utc :: env where
  "utc = \<lparr>utc_offset = 0, other_formats = no_other_formats, number_format = no_number_format\<rparr>"

definition ist :: env where
  "ist = \<lparr>utc_offset = 330, other_formats = no_other_formats, number_format = no_number_format\<rparr>"

definition new_york :: env where
  "new_york =
     \<lparr>utc_offset = - 300, other_formats = no_other_formats, number_format = no_number_format\<rparr>"

definition scenario_expenses :: "Expense list" where
  "scenario_expenses =
     [\<lparr>amount = JString ''50.00'', category = Some ''Food'', date = Some ''2024-01-05''\<rparr>,
      \<lparr>amount = JString ''30.00'', category = Some ''Food'', date = Some ''2024-02-10''\<rparr>,
      \<lparr>amount = JString ''20.00'', category = Some ''Transport'', date = Some ''2024-01-20''\<rparr>]"

definition scenario_budgets :: "Budget list" where
  "scenario_budgets =
     [\<lparr>amount = JNumber (Num 100), category = Some ''Food'', period = Some ''monthly''\<rparr>]"

definition store_of :: "Expense list \<Rightarrow> Budget list \<Rightarrow> store" where
  "store_of es bs =
     \<lparr>Expense_findAll = (\<lambda>uid start end. Some es), Budget_findAll = (\<lambda>uid. Some bs)\<rparr>"

definition failing_store :: store where
  "failing_store = \<lparr>Expense_findAll = (\<lambda>uid start end. None), Budget_findAll = (\<lambda>uid. None)\<rparr>"

definition undated :: Expense where
  "undated = \<lparr>amount = JString ''10.00'', category = Some ''Food'', date = Some ''0000-00-00''\<rparr>"

definition unpriced :: Expense where
  "unpriced = \<lparr>amount = JString ''n/a'', category = Some ''Food'', date = Some ''2024-01-05''\<rparr>"

definition free_item :: Expense where
  "free_item = \<lparr>amount = JString ''0.00'', category = Some ''Food'', date = Some ''2024-01-05''\<rparr>"

definition unfilled :: Expense where
  "unfilled = \<lparr>amount = JNull, category = Some ''Rent'', date = Some ''2024-01-05''\<rparr>"

definition unlabelled :: Expense where
  "unlabelled = \<lparr>amount = JString ''5.00'', category = None, date = Some ''2024-01-05''\<rparr>"

definition named :: "string \<Rightarrow> Expense" where
  "named c = \<lparr>amount = JString ''50.00'', category = Some c, date = Some ''2024-01-05''\<rparr>"



definition biannual :: Budget where
  "biannual = \<lparr>amount = JNumber (Num 50), category = Some ''Food'', period = Some ''biannual''\<rparr>"


definition uncategorised :: Budget where
  "uncategorised = \<lparr>amount = JNumber (Num 70), category = None, period = Some ''monthly''\<rparr>"

definition inherited_name :: Budget where
  "inherited_name =
     \<lparr>amount = JNumber (Num 100), category = Some ''toString'', period = Some ''monthly''\<rparr>"

section \<open>Lemmas\<close>

subsection \<open>The calendar\<close>

text \<open>
  Quotients by a positive number, and how the quotient moves from \<open>y - 1\<close> to \<open>y\<close>: the
  facts on \<open>div\<close> that the day number of a year needs.
\<close>

lemma div_bounds:
  fixes x n :: int
  assumes "0 < n"
  shows "n * (x div n) \<le> x" and "x < n * (x div n) + n"
proof -
  have e: "x = n * (x div n) + x mod n" by simp
  have "0 \<le> x mod n" "x mod n < n" using assms by simp_all
  then show "n * (x div n) \<le> x" "x < n * (x div n) + n" using e by linarith+
qed

lemma div_step:
  fixes y n :: int
  assumes "1 < n"
  shows "y div n - (y - 1) div n = (if y mod n = 0 then 1 else 0)"
proof (cases "y mod n = 0")
  case True
  have "y - 1 = n * (y div n - 1) + (n - 1)"
    using True mult_div_mod_eq [of n y] by (simp add: algebra_simps)
  then have "(y - 1) div n = y div n - 1"
    using assms int_div_pos_eq [of "y - 1" n "y div n - 1" "n - 1"] by simp
  then show ?thesis using True by simp
next
  case False
  have m: "0 \<le> y mod n" "y mod n < n" using assms by simp_all
  have "y - 1 = n * (y div n) + (y mod n - 1)"
    using mult_div_mod_eq [of n y] by (simp add: algebra_simps)
  then have "(y - 1) div n = y div n"
    using assms m False int_div_pos_eq [of "y - 1" n "y div n" "y mod n - 1"] by simp
  then show ?thesis using False by simp
qed

lemma div_shift:
  fixes y n k :: int
  assumes "n \<noteq> 0"
  shows "(y - n * k) div n = y div n - k"
  using assms div_mult_self1 [of n y "- k"] by (simp add: mult.commute)

lemma div_Suc_shift:
  fixes y n k :: int
  assumes "1 < n"
  shows "(y + 1 - (n * k + 1)) div n = y div n - k"
    and "(y - (n * k + 1)) div n = y div n - k - (if y mod n = 0 then 1 else 0)"
proof -
  have n: "n \<noteq> 0" using assms by simp
  have "(y + 1 - (n * k + 1)) div n = (y - n * k) div n"
    by (rule arg_cong [where f = "\<lambda>x. x div n"]) simp
  then show "(y + 1 - (n * k + 1)) div n = y div n - k"
    by (simp only: div_shift [OF n])
  have "(y - (n * k + 1)) div n = ((y - 1) - n * k) div n"
    by (rule arg_cong [where f = "\<lambda>x. x div n"]) simp
  then have "(y - (n * k + 1)) div n = (y - 1) div n - k"
    by (simp only: div_shift [OF n])
  moreover have "(y - 1) div n = y div n - (if y mod n = 0 then 1 else 0)"
    using div_step [OF assms, of y] by (simp only: algebra_simps)
  ultimately show "(y - (n * k + 1)) div n = y div n - k - (if y mod n = 0 then 1 else 0)"
    by (simp only: algebra_simps)
qed

text \<open>
  A year has \<open>DaysInYear\<close> days, and the day number of its first day is within two days of
  365.2425 days a year. So \<open>DayFromYear\<close> is strictly monotone, and \<open>YearFromDay d\<close> is the
  one year whose days include \<open>d\<close>.
\<close>

lemma DayFromYear_Suc: "DayFromYear (y + 1) = DayFromYear y + DaysInYear y"
proof -
  define A where "A = y div 4"
  define B where "B = y div 100"
  define C where "C = y div 400"
  define u4 :: int where "u4 = (if y mod 4 = 0 then 1 else 0)"
  define u100 :: int where "u100 = (if y mod 100 = 0 then 1 else 0)"
  define u400 :: int where "u400 = (if y mod 400 = 0 then 1 else 0)"
  have n: "(4::int) * 492 + 1 = 1969" "(100::int) * 19 + 1 = 1901" "(400::int) * 4 + 1 = 1601"
    by simp_all
  have a: "(y + 1 - 1969) div 4 = A - 492" "(y - 1969) div 4 = A - 492 - u4"
    using div_Suc_shift [of 4 y 492] unfolding n A_def u4_def by simp_all
  have b: "(y + 1 - 1901) div 100 = B - 19" "(y - 1901) div 100 = B - 19 - u100"
    using div_Suc_shift [of 100 y 19] unfolding n B_def u100_def by simp_all
  have c: "(y + 1 - 1601) div 400 = C - 4" "(y - 1601) div 400 = C - 4 - u400"
    using div_Suc_shift [of 400 y 4] unfolding n C_def u400_def by simp_all
  have d1: "y mod 100 = 0 \<Longrightarrow> y mod 4 = 0"
    using mod_mod_cancel [of 4 100 y] by simp
  have d2: "y mod 400 = 0 \<Longrightarrow> y mod 100 = 0"
    using mod_mod_cancel [of 100 400 y] by simp
  have E1: "DayFromYear (y + 1) = 365 * y - 718685 + (A - 492) - (B - 19) + (C - 4)"
    unfolding DayFromYear_def a(1) b(1) c(1) by simp
  have E0: "DayFromYear y = 365 * y - 719050 + (A - 492 - u4) - (B - 19 - u100) + (C - 4 - u400)"
    unfolding DayFromYear_def a(2) b(2) c(2) by simp
  have D: "DaysInYear y = 365 + u4 - u100 + u400"
    unfolding DaysInYear_def u4_def u100_def u400_def using d1 d2 by auto
  show ?thesis unfolding E1 E0 D by simp
qed

lemma DayFromYear_bounds:
  "146097 * y - 287811697 < 400 * DayFromYear y"
  "400 * DayFromYear y < 146097 * y - 287810497"
proof -
  define A where "A = (y - 1969) div 4"
  define B where "B = (y - 1901) div 100"
  define C where "C = (y - 1601) div 400"
  have A: "4 * A \<le> y - 1969" "y - 1969 < 4 * A + 4"
    unfolding A_def by (rule div_bounds; simp)+
  have B: "100 * B \<le> y - 1901" "y - 1901 < 100 * B + 100"
    unfolding B_def by (rule div_bounds; simp)+
  have C: "400 * C \<le> y - 1601" "y - 1601 < 400 * C + 400"
    unfolding C_def by (rule div_bounds; simp)+
  have D: "DayFromYear y = 365 * y - 719050 + A - B + C"
    unfolding DayFromYear_def A_def B_def C_def by simp
  show "146097 * y - 287811697 < 400 * DayFromYear y"
    unfolding D using A B C by (simp add: algebra_simps)
  show "400 * DayFromYear y < 146097 * y - 287810497"
    unfolding D using A B C by (simp add: algebra_simps)
qed

lemma DayFromYear_strict_mono: "a < b \<Longrightarrow> DayFromYear a < DayFromYear b"
  using DayFromYear_bounds(2) [of a] DayFromYear_bounds(1) [of b] by linarith

lemma DayFromYear_mono: "a \<le> b \<Longrightarrow> DayFromYear a \<le> DayFromYear b"
  using DayFromYear_strict_mono [of a b] by (cases "a = b") auto

lemma YearFromDay_lower: "DayFromYear (YearFromDay d) \<le> d"
proof -
  define q where "q = (400 * d) div 146097"
  have q: "146097 * q \<le> 400 * d" unfolding q_def by (rule div_bounds; simp)
  have "DayFromYear (1969 + q) \<le> d"
    using DayFromYear_bounds(2) [of "1969 + q"] q by (simp add: algebra_simps)
  then show ?thesis
    unfolding YearFromDay_def Let_def q_def by (simp add: algebra_simps)
qed

lemma YearFromDay_upper: "d < DayFromYear (YearFromDay d + 1)"
proof -
  define q where "q = (400 * d) div 146097"
  have q: "400 * d < 146097 * q + 146097" unfolding q_def by (rule div_bounds; simp)
  have "d < DayFromYear (1972 + q)"
    using DayFromYear_bounds(1) [of "1972 + q"] q by (simp add: algebra_simps)
  then show ?thesis
    unfolding YearFromDay_def Let_def q_def by (simp add: algebra_simps)
qed

lemma YearFromDay_unique:
  assumes "DayFromYear y \<le> d" "d < DayFromYear (y + 1)"
  shows "YearFromDay d = y"
proof (rule ccontr)
  assume n: "YearFromDay d \<noteq> y"
  show False
  proof (cases "YearFromDay d < y")
    case True
    then have "DayFromYear (YearFromDay d + 1) \<le> DayFromYear y"
      by (intro DayFromYear_mono) simp
    then show False using YearFromDay_upper [of d] assms by linarith
  next
    case False
    then have "DayFromYear (y + 1) \<le> DayFromYear (YearFromDay d)"
      using n by (intro DayFromYear_mono) simp
    then show False using YearFromDay_lower [of d] assms by linarith
  qed
qed


lemma YearFromDay_mono:
  assumes "d1 \<le> d2"
  shows "YearFromDay d1 \<le> YearFromDay d2"
proof (rule ccontr)
  assume "\<not> YearFromDay d1 \<le> YearFromDay d2"
  then have "DayFromYear (YearFromDay d2 + 1) \<le> DayFromYear (YearFromDay d1)"
    by (intro DayFromYear_mono) simp
  then show False
    using YearFromDay_lower [of d1] YearFromDay_upper [of d2] assms by linarith
qed

lemma DayWithinYear_bounds:
  "0 \<le> DayWithinYear d" "DayWithinYear d < 365 + InLeapYear d"
proof -
  show "0 \<le> DayWithinYear d"
    unfolding DayWithinYear_def using YearFromDay_lower [of d] by simp
  have "DaysInYear (YearFromDay d) = 365 + InLeapYear d"
    unfolding InLeapYear_def DaysInYear_def by simp
  then show "DayWithinYear d < 365 + InLeapYear d"
    unfolding DayWithinYear_def
    using YearFromDay_upper [of d] DayFromYear_Suc [of "YearFromDay d"] by linarith
qed

lemma MonthFromDay_range: "0 \<le> MonthFromDay d" "MonthFromDay d < 12"
  unfolding MonthFromDay_def Let_def by simp_all

lemma MonthStart_range:
  assumes "0 \<le> m" "m < 12" "l = 0 \<or> l = 1"
  shows "0 \<le> MonthStart l m" "MonthStart l m < 365 + l"
  using assms unfolding MonthStart_def by auto

lemma in_year:
  assumes "0 \<le> w" "w < DaysInYear y"
  shows "YearFromDay (DayFromYear y + w) = y"
    and "DayWithinYear (DayFromYear y + w) = w"
    and "InLeapYear (DayFromYear y + w) = (if DaysInYear y = 366 then 1 else 0)"
proof -
  show y: "YearFromDay (DayFromYear y + w) = y"
    using assms DayFromYear_Suc [of y] by (intro YearFromDay_unique) simp_all
  show "DayWithinYear (DayFromYear y + w) = w"
    unfolding DayWithinYear_def y by simp
  show "InLeapYear (DayFromYear y + w) = (if DaysInYear y = 366 then 1 else 0)"
    unfolding InLeapYear_def y by simp
qed

lemma DaysInYear_cases: "DaysInYear y = 365 \<or> DaysInYear y = 366"
  unfolding DaysInYear_def by simp

text \<open>
  The first day of a month lies in that month of that year; so \<^verbatim>\<open>setDate(1)\<close> keeps the
  local year and month of a date, and the month count of the handler is the difference
  of the months of its two bounds, plus one.
\<close>

lemma MakeDay_first:
  assumes "0 \<le> m" "m < 12"
  shows "YearFromDay (MakeDay y m 1) = y" and "MonthFromDay (MakeDay y m 1) = m"
proof -
  define l :: int where "l = (if DaysInYear y = 366 then 1 else 0)"
  have l: "l = 0 \<or> l = 1" unfolding l_def by simp
  have dy: "DaysInYear y = 365 + l" unfolding l_def using DaysInYear_cases [of y] by auto
  have mk: "MakeDay y m 1 = DayFromYear y + MonthStart l m"
    using assms unfolding MakeDay_def Let_def l_def by simp
  have r: "0 \<le> MonthStart l m" "MonthStart l m < DaysInYear y"
    using MonthStart_range [OF assms l] dy by simp_all
  show "YearFromDay (MakeDay y m 1) = y"
    unfolding mk by (rule in_year(1) [OF r])
  have w: "DayWithinYear (MakeDay y m 1) = MonthStart l m"
    unfolding mk by (rule in_year(2) [OF r])
  have il: "InLeapYear (MakeDay y m 1) = l"
    unfolding mk using in_year(3) [OF r] by (simp add: l_def)
  have m: "m = 0 \<or> m = 1 \<or> m = 2 \<or> m = 3 \<or> m = 4 \<or> m = 5 \<or> m = 6 \<or> m = 7 \<or> m = 8
      \<or> m = 9 \<or> m = 10 \<or> m = 11"
    using assms by presburger
  show "MonthFromDay (MakeDay y m 1) = m"
    unfolding MonthFromDay_def Let_def w il MonthStart_def using m l by (elim disjE; simp)
qed

lemma Day_offset:
  assumes "0 \<le> r" "r < msPerDay"
  shows "Day (d * msPerDay + r) = d"
  unfolding Day_def using assms by (simp add: msPerDay_def div_pos_pos_trivial)

lemma TimeWithinDay_range: "0 \<le> TimeWithinDay t" "TimeWithinDay t < msPerDay"
  unfolding TimeWithinDay_def msPerDay_def by simp_all

lemma LocalTime_UTC: "LocalTime ev (UTC ev t) = t"
  unfolding LocalTime_def UTC_def by simp

lemma Day_setDate_first:
  "Day (LocalTime ev (setDate ev 1 t)) =
     MakeDay (getFullYear ev t) (getMonth ev t) 1"
  unfolding setDate_def Let_def LocalTime_UTC getFullYear_def getMonth_def
  by (rule Day_offset [OF TimeWithinDay_range])

lemma getFullYear_setDate: "getFullYear ev (setDate ev 1 t) = getFullYear ev t"
  unfolding getFullYear_def [of ev "setDate ev 1 t"] Day_setDate_first
  unfolding getMonth_def by (rule MakeDay_first(1) [OF MonthFromDay_range])

lemma getMonth_setDate: "getMonth ev (setDate ev 1 t) = getMonth ev t"
  unfolding getMonth_def [of ev "setDate ev 1 t"] Day_setDate_first
  unfolding getMonth_def by (rule MakeDay_first(2) [OF MonthFromDay_range])

lemma getDate_setDate: "getDate ev (setDate ev 1 t) = 1"
proof -
  define y where "y = getFullYear ev t"
  define m where "m = getMonth ev t"
  define l :: int where "l = (if DaysInYear y = 366 then 1 else 0)"
  have mr: "0 \<le> m" "m < 12" unfolding m_def getMonth_def by (rule MonthFromDay_range)+
  have l: "l = 0 \<or> l = 1" unfolding l_def by simp
  have dy: "DaysInYear y = 365 + l" unfolding l_def using DaysInYear_cases [of y] by auto
  have mk: "MakeDay y m 1 = DayFromYear y + MonthStart l m"
    using mr unfolding MakeDay_def Let_def l_def by simp
  have r: "0 \<le> MonthStart l m" "MonthStart l m < DaysInYear y"
    using MonthStart_range [OF mr l] dy by simp_all
  have w: "DayWithinYear (MakeDay y m 1) = MonthStart l m"
    unfolding mk by (rule in_year(2) [OF r])
  have il: "InLeapYear (MakeDay y m 1) = l"
    unfolding mk using in_year(3) [OF r] by (simp add: l_def)
  have "DateFromDay (MakeDay y m 1) = 1"
    unfolding DateFromDay_def w il MakeDay_first(2) [OF mr] by simp
  then show ?thesis
    unfolding getDate_def Day_setDate_first y_def m_def .
qed

lemma monthDiff_eq:
  "monthDiff ev start end =
     (getFullYear ev end * 12 + getMonth ev end)
       - (getFullYear ev start * 12 + getMonth ev start) + 1"
  unfolding monthDiff_def Let_def getFullYear_setDate getMonth_setDate by simp



text \<open>Later instants have later months: for \<open>start \<le> end\<close> the month count is at least 1.\<close>

lemma MonthFromDay_mono_in_year:
  assumes "YearFromDay d1 = YearFromDay d2" "d1 \<le> d2"
  shows "MonthFromDay d1 \<le> MonthFromDay d2"
proof -
  have l: "InLeapYear d1 = InLeapYear d2" unfolding InLeapYear_def assms(1) by simp
  have w: "DayWithinYear d1 \<le> DayWithinYear d2"
    unfolding DayWithinYear_def assms(1) using assms(2) by simp
  define w1 where "w1 = DayWithinYear d1"
  define w2 where "w2 = DayWithinYear d2"
  define k where "k = InLeapYear d2"
  have "w1 \<le> w2" using w unfolding w1_def w2_def .
  then show ?thesis
    unfolding MonthFromDay_def Let_def l w1_def [symmetric] w2_def [symmetric] k_def [symmetric]
    by simp
qed

lemma month_index_mono_day:
  assumes "d1 \<le> d2"
  shows "YearFromDay d1 * 12 + MonthFromDay d1 \<le> YearFromDay d2 * 12 + MonthFromDay d2"
proof (cases "YearFromDay d1 = YearFromDay d2")
  case True
  then show ?thesis using MonthFromDay_mono_in_year [OF True assms] by simp
next
  case False
  then have "YearFromDay d1 + 1 \<le> YearFromDay d2"
    using YearFromDay_mono [OF assms] by simp
  then show ?thesis
    using MonthFromDay_range [of d1] MonthFromDay_range [of d2] by linarith
qed

lemma Day_mono: "s \<le> e \<Longrightarrow> Day s \<le> Day e"
  unfolding Day_def msPerDay_def by (rule zdiv_mono1) simp_all

lemma month_index_mono:
  assumes "start \<le> end"
  shows "getFullYear ev start * 12 + getMonth ev start
           \<le> getFullYear ev end * 12 + getMonth ev end"
  unfolding getFullYear_def getMonth_def
  using assms by (intro month_index_mono_day Day_mono) (simp add: LocalTime_def)

lemma monthDiff_pos: "start \<le> end \<Longrightarrow> 1 \<le> monthDiff ev start end"
  unfolding monthDiff_eq using month_index_mono [of start "end" ev] by simp

text \<open>East of UTC by less than a day, midnight UTC is still on the same local day.\<close>

lemma Day_LocalTime_midnight:
  assumes "0 \<le> utc_offset ev" "utc_offset ev < 1440" "t mod msPerDay = 0"
  shows "Day (LocalTime ev t) = t div msPerDay"
proof -
  have "t = t div msPerDay * msPerDay" using assms(3) by (simp add: mod_eq_0_iff_dvd)
  then have "LocalTime ev t = t div msPerDay * msPerDay + utc_offset ev * msPerMinute"
    unfolding LocalTime_def by simp
  moreover have "0 \<le> utc_offset ev * msPerMinute" "utc_offset ev * msPerMinute < msPerDay"
    using assms(1,2) unfolding msPerMinute_def msPerDay_def by simp_all
  ultimately show ?thesis using Day_offset by simp
qed

subsection \<open>Rounding\<close>


lemma pow2_powi: "pow2 e = 2 powi e"
  unfolding pow2_def power_int_def
  by (simp add: power_inverse [symmetric] inverse_eq_divide power_one_over)

lemma pow2_pos: "0 < pow2 e"
  unfolding pow2_powi by (simp add: zero_less_power_int)

lemma pow2_Suc: "pow2 (e + 1) = 2 * pow2 e"
  unfolding pow2_powi by (simp add: power_int_add_1')

lemma pow2_pred: "2 * pow2 (e - 1) = pow2 e"
  using pow2_Suc [of "e - 1"] by simp

lemma pow2_strict_mono: "a < b \<Longrightarrow> pow2 a < pow2 b"
  unfolding pow2_powi by (simp add: power_int_strict_increasing)

lemma pow2_mono: "a \<le> b \<Longrightarrow> pow2 a \<le> pow2 b"
  unfolding pow2_powi by (simp add: power_int_increasing)

lemma ilog2_bounds:
  "0 < x \<Longrightarrow> pow2 (ilog2 x) \<le> x \<and> x < pow2 (ilog2 x + 1)"
proof (induction x rule: ilog2.induct)
  case (1 x)
  have p: "\<not> x \<le> 0" using 1(3) by simp
  consider "x < 1" | "2 \<le> x" | "1 \<le> x" "x < 2" by linarith
  then show ?case
  proof cases
    case 1
    have e: "ilog2 x = ilog2 (2 * x) - 1"
      using p 1 by (subst ilog2.simps) simp
    have "pow2 (ilog2 (2 * x)) \<le> 2 * x \<and> 2 * x < pow2 (ilog2 (2 * x) + 1)"
      using "1.IH"(1) [OF p 1] "1.prems" by simp
    then show ?thesis
      unfolding e using pow2_pred [of "ilog2 (2 * x)"] pow2_Suc [of "ilog2 (2 * x)"] by simp
  next
    case 2
    have n: "\<not> x < 1" using 2 by simp
    have e: "ilog2 x = ilog2 (x / 2) + 1"
      using p n 2 by (subst ilog2.simps) simp
    have "pow2 (ilog2 (x / 2)) \<le> x / 2 \<and> x / 2 < pow2 (ilog2 (x / 2) + 1)"
      using "1.IH"(2) [OF p n 2] "1.prems" by simp
    then show ?thesis
      unfolding e using pow2_Suc [of "ilog2 (x / 2)"] pow2_Suc [of "ilog2 (x / 2) + 1"] by simp
  next
    case 3
    have e: "ilog2 x = 0"
      using p 3 by (subst ilog2.simps) simp
    show ?thesis unfolding e using 3 by (simp add: pow2_def)
  qed
qed

lemma round_half_even_of_int: "round_half_even (of_int n) = n"
  unfolding round_half_even_def by simp

lemma round64_int:
  assumes "\<bar>z\<bar> \<le> 2 ^ 53"
  shows "round64 (of_int z) = Num (of_int z)"
proof (cases "z = 0")
  case True
  then show ?thesis unfolding round64_def by simp
next
  case False
  define a :: rat where "a = \<bar>of_int z\<bar>"
  define e where "e = ilog2 a"
  have a1: "1 \<le> a" using False unfolding a_def by (simp add: abs_if)
  have a2: "a \<le> 2 ^ 53"
  proof -
    have "a = of_int \<bar>z\<bar>" unfolding a_def by simp
    also have "\<dots> \<le> of_int (2 ^ 53)" using assms by (simp only: of_int_le_iff)
    finally show ?thesis by simp
  qed
  have b: "pow2 e \<le> a" "a < pow2 (e + 1)"
    using ilog2_bounds [of a] a1 unfolding e_def by simp_all
  have e0: "0 \<le> e"
  proof (rule ccontr)
    assume "\<not> 0 \<le> e"
    then have "pow2 (e + 1) \<le> pow2 0" by (intro pow2_mono) simp
    then show False using b(2) a1 by (simp add: pow2_def)
  qed
  have e53: "e \<le> 53"
  proof (rule ccontr)
    assume "\<not> e \<le> 53"
    then have "pow2 53 < pow2 e" by (intro pow2_strict_mono) simp
    then show False using b(1) a2 by (simp add: pow2_def)
  qed
  have m: "max e (- 1022) = e" using e0 by simp
  have q: "\<exists>n::int. a = of_int n * pow2 (e - 52)"
  proof (cases "e \<le> 52")
    case True
    define k where "k = nat (52 - e)"
    have u: "pow2 (e - 52) = 1 / 2 ^ k"
      using True unfolding pow2_def k_def by (cases "e = 52") simp_all
    have "a = of_int (\<bar>z\<bar> * 2 ^ k) * pow2 (e - 52)"
      unfolding u a_def by simp
    then show ?thesis by blast
  next
    case False
    then have e: "e = 53" using e53 by simp
    have "a = 2 ^ 53" using b(1) a2 unfolding e by (simp add: pow2_def)
    then have "a = of_int (2 ^ 52) * pow2 (e - 52)" unfolding e by (simp add: pow2_def)
    then show ?thesis by blast
  qed
  then obtain n :: int where n: "a = of_int n * pow2 (e - 52)" by blast
  have d: "a / pow2 (e - 52) = of_int n"
    unfolding n using pow2_pos [of "e - 52"] by simp
  have r: "of_int (round_half_even (a / pow2 (e - 52))) * pow2 (e - 52) = a"
    by (simp only: d round_half_even_of_int) (rule n [symmetric])
  have o: "\<not> pow2 1024 \<le> a" using a2 by (simp add: pow2_def)
  have z: "(of_int z :: rat) \<noteq> 0" using False by simp
  have s: "(if (of_int z :: rat) < 0 then - a else a) = of_int z"
    unfolding a_def by simp
  show ?thesis
    unfolding round64_def Let_def a_def [symmetric] e_def [symmetric] m r
    using z o s by simp
qed

lemma round64_numeral:
  "numeral k \<le> (2::int) ^ 53 \<Longrightarrow> round64 (numeral k) = Num (numeral k)"
  using round64_int [of "numeral k"] by simp

lemma round64_neg_numeral:
  "numeral k \<le> (2::int) ^ 53 \<Longrightarrow> round64 (- numeral k) = Num (- numeral k)"
  using round64_int [of "- numeral k"] by simp

lemma round64_zero: "round64 0 = Num 0"
  unfolding round64_def by simp

lemma round64_one: "round64 1 = Num 1"
  using round64_int [of 1] by simp


text \<open>The arithmetic on numerals, for evaluation.\<close>

lemma fadd_Num: "fadd (Num a) (Num b) = round64 (a + b)"
  unfolding fadd_def by simp

lemma fsub_Num: "fsub (Num a) (Num b) = round64 (a - b)"
  unfolding fsub_def fneg_def fadd_def by simp

lemma fmul_Num: "fmul (Num a) (Num b) = round64 (a * b)"
  unfolding fmul_def by simp

lemma fsub_NaN: "fsub x NaN = NaN"
  unfolding fsub_def fneg_def fadd_def by (simp split: jsnum.splits)

lemmas whole_arith = fadd_Num fsub_Num fmul_Num round64_numeral round64_neg_numeral
  round64_zero round64_one


subsection \<open>The dictionaries and the folds\<close>

text \<open>
  Under an ordinary key an object behaves as a plain dictionary. What \<open>add_amount\<close> does
  to the keys in general, and to the value under an ordinary key of a dictionary of
  numbers.
\<close>

lemma ordinary_inherited: "ordinary k \<Longrightarrow> inherited k = None"
  unfolding ordinary_def inherited_def by (auto simp: map_of_eq_None_iff)

lemma ordinary_get: "ordinary k \<Longrightarrow> get_property t k = map_of t k"
  unfolding get_property_def by (simp add: ordinary_inherited split: option.splits)

lemma ordinary_set: "ordinary k \<Longrightarrow> set_property k v t = AList.update k v t"
  unfolding set_property_def ordinary_def by auto

lemma keys_set_property: "fst ` set t \<subseteq> fst ` set (set_property k v t)"
  unfolding set_property_def by (auto simp: dom_update)

lemma distinct_set_property:
  "distinct (map fst t) \<Longrightarrow> distinct (map fst (set_property k v t))"
  unfolding set_property_def by (simp add: distinct_update)

lemma keys_add_amount: "fst ` set t \<subseteq> fst ` set (add_amount ev k a t)"
proof -
  define t0 where
    "t0 = (if falsy_property (get_property t k) then set_property k (Number (Num 0)) t else t)"
  have "fst ` set t \<subseteq> fst ` set t0"
    unfolding t0_def using keys_set_property [of t k "Number (Num 0)"] by simp
  also have "\<dots> \<subseteq> fst ` set (set_property k (js_plus ev (get_property t0 k) a) t0)"
    by (rule keys_set_property)
  finally show ?thesis unfolding add_amount_def Let_def t0_def .
qed

lemma distinct_add_amount:
  "distinct (map fst t) \<Longrightarrow> distinct (map fst (add_amount ev k a t))"
  unfolding add_amount_def Let_def by (simp add: distinct_set_property)

lemma ordinary_key_added: "ordinary k \<Longrightarrow> k \<in> fst ` set (add_amount ev k a t)"
  unfolding add_amount_def Let_def by (simp add: ordinary_set dom_update)

lemma numeric_lookup:
  assumes "numeric t"
  shows "map_of t k = None \<or> (\<exists>n. map_of t k = Some (Number n))"
proof (cases "map_of t k")
  case None
  then show ?thesis by simp
next
  case (Some v)
  then have "(k, v) \<in> set t" by (rule map_of_SomeD)
  then have "case v of Number n \<Rightarrow> True | _ \<Rightarrow> False"
    using assms unfolding numeric_def list_all_iff by fastforce
  then show ?thesis using Some by (cases v) simp_all
qed

lemma numeric_update:
  assumes "numeric t" "ordinary k"
  shows "numeric (AList.update k (Number n) t)"
  using assms unfolding numeric_def by (induction t) auto

lemma add_amount_ordinary:
  assumes "ordinary k" "numeric t"
  shows "add_amount ev k a t
           = AList.update k
               (Number (fadd (if number_at t k = NaN then Num 0 else number_at t k) a)) t"
  using numeric_lookup [OF assms(2), of k]
proof (elim disjE exE)
  assume "map_of t k = None"
  then show ?thesis
    unfolding add_amount_def Let_def number_at_def
    by (simp add: ordinary_get [OF assms(1)] ordinary_set [OF assms(1)] falsy_property_def
          js_plus_def update_conv' update_last)
next
  fix n
  assume "map_of t k = Some (Number n)"
  then show ?thesis
    unfolding add_amount_def Let_def number_at_def
    by (simp add: ordinary_get [OF assms(1)] ordinary_set [OF assms(1)] falsy_property_def
          js_plus_def update_conv' update_last)
qed

lemma numeric_add_amount:
  assumes "ordinary k" "numeric t"
  shows "numeric (add_amount ev k a t)"
  unfolding add_amount_ordinary [OF assms] by (rule numeric_update [OF assms(2,1)])

text \<open>
  Adding a list of pairs of a key and an amount: the keys, and the value under a key,
  which is the running sum of the amounts added under it.
\<close>

lemma add_all_Nil: "add_all ev t [] = t"
  unfolding add_all_def by simp

lemma add_all_Cons:
  "add_all ev t (ka # kas) = add_all ev (add_amount ev (fst ka) (snd ka) t) kas"
  unfolding add_all_def by simp

lemma add_all_append: "add_all ev t (xs @ ys) = add_all ev (add_all ev t xs) ys"
  unfolding add_all_def by simp

lemma keys_add_all_mono: "fst ` set t \<subseteq> fst ` set (add_all ev t kas)"
proof (induction kas arbitrary: t)
  case Nil
  show ?case by (simp add: add_all_Nil)
next
  case (Cons ka kas)
  have "fst ` set t \<subseteq> fst ` set (add_amount ev (fst ka) (snd ka) t)"
    by (rule keys_add_amount)
  also have "\<dots> \<subseteq> fst ` set (add_all ev (add_amount ev (fst ka) (snd ka) t) kas)"
    by (rule Cons.IH)
  finally show ?case unfolding add_all_Cons .
qed

lemma distinct_add_all:
  "distinct (map fst t) \<Longrightarrow> distinct (map fst (add_all ev t kas))"
  by (induction kas arbitrary: t) (simp_all add: add_all_Nil add_all_Cons distinct_add_amount)

lemma numeric_add_all:
  assumes "numeric t" "\<forall>ka \<in> set kas. ordinary (fst ka)"
  shows "numeric (add_all ev t kas)"
  using assms
  by (induction kas arbitrary: t) (simp_all add: add_all_Nil add_all_Cons numeric_add_amount)

lemma keys_add_all:
  assumes "numeric t" "\<forall>ka \<in> set kas. ordinary (fst ka)"
  shows "fst ` set (add_all ev t kas) = fst ` set t \<union> fst ` set kas"
  using assms
proof (induction kas arbitrary: t)
  case Nil
  show ?case by (simp add: add_all_Nil)
next
  case (Cons ka kas)
  have o: "ordinary (fst ka)" and r: "\<forall>ka \<in> set kas. ordinary (fst ka)"
    using Cons.prems(2) by simp_all
  have n: "numeric (add_amount ev (fst ka) (snd ka) t)"
    by (rule numeric_add_amount [OF o Cons.prems(1)])
  have k: "fst ` set (add_amount ev (fst ka) (snd ka) t) = insert (fst ka) (fst ` set t)"
    unfolding add_amount_ordinary [OF o Cons.prems(1)] by (simp add: dom_update)
  show ?case
    unfolding add_all_Cons Cons.IH [OF n r] k by auto
qed

lemma filter_absent_key: "k \<notin> fst ` set kas \<Longrightarrow> filter (\<lambda>ka. fst ka = k) kas = []"
  by (auto simp: filter_empty_conv)

lemma value_add_all:
  assumes "numeric t" "\<forall>ka \<in> set kas. ordinary (fst ka)"
  shows "map_of (add_all ev t kas) c
           = (if c \<in> fst ` set kas
              then Some (Number (foldl (\<lambda>s a. fadd (if s = NaN then Num 0 else s) a)
                                   (number_at t c) (map snd (filter (\<lambda>ka. fst ka = c) kas))))
              else map_of t c)"
  using assms
proof (induction kas arbitrary: t)
  case Nil
  show ?case by (simp add: add_all_Nil)
next
  case (Cons ka kas)
  have o: "ordinary (fst ka)" and r: "\<forall>ka \<in> set kas. ordinary (fst ka)"
    using Cons.prems(2) by simp_all
  define t' where "t' = add_amount ev (fst ka) (snd ka) t"
  have n: "numeric t'"
    unfolding t'_def by (rule numeric_add_amount [OF o Cons.prems(1)])
  have u: "t' = AList.update (fst ka)
             (Number (fadd (if number_at t (fst ka) = NaN then Num 0 else number_at t (fst ka))
                        (snd ka))) t"
    unfolding t'_def by (rule add_amount_ordinary [OF o Cons.prems(1)])
  have m: "map_of t' c = (if c = fst ka
             then Some (Number (fadd (if number_at t c = NaN then Num 0 else number_at t c) (snd ka)))
             else map_of t c)"
    unfolding u by (simp add: update_conv')
  have a: "number_at t' c = (if c = fst ka
             then fadd (if number_at t c = NaN then Num 0 else number_at t c) (snd ka)
             else number_at t c)"
    unfolding number_at_def m by simp
  show ?case
    unfolding add_all_Cons t'_def [symmetric] Cons.IH [OF n r] m a
    by (auto simp: filter_absent_key)
qed

lemma category_fold: "foldl (category_step ev) t es = add_all ev t (category_amounts es)"
  by (induction es arbitrary: t)
     (simp_all add: category_step_def category_amounts_def amount_ok_def amount_value_def
        add_all_Nil add_all_Cons Let_def)


lemma category_total_eq:
  "category_total es c
     = running_sum (map snd (filter (\<lambda>ka. fst ka = c) (category_amounts es)))"
  unfolding category_total_def category_amounts_def
  by (simp add: filter_map comp_def conj_commute)

lemma categories_distinct: "distinct (map fst (calc_categoryTotals ev es))"
  unfolding calc_categoryTotals_def category_fold by (rule distinct_add_all) simp

lemma numeric_Nil: "numeric []"
  unfolding numeric_def by simp

lemma ordinary_categories:
  assumes "\<forall>e \<in> set es. amount_ok e \<longrightarrow> ordinary (category_or_other (category e))"
  shows "\<forall>ka \<in> set (category_amounts es). ordinary (fst ka)"
  using assms unfolding category_amounts_def by auto

lemma categories_keys:
  assumes "\<forall>e \<in> set es. amount_ok e \<longrightarrow> ordinary (category_or_other (category e))"
  shows "fst ` set (calc_categoryTotals ev es)
           = {category_or_other (category e) | e. e \<in> set es \<and> amount_ok e}"
  unfolding calc_categoryTotals_def category_fold
    keys_add_all [OF numeric_Nil ordinary_categories [OF assms]]
  unfolding category_amounts_def by (force simp: image_image)

lemma categories_value:
  assumes "\<forall>e \<in> set es. amount_ok e \<longrightarrow> ordinary (category_or_other (category e))"
    and "(c, v) \<in> set (calc_categoryTotals ev es)"
  shows "v = Number (category_total es c)"
proof -
  have m: "map_of (calc_categoryTotals ev es) c = Some v"
    using assms(2) categories_distinct by simp
  have "c \<in> fst ` set (calc_categoryTotals ev es)"
    using assms(2) by force
  then have k: "c \<in> fst ` set (category_amounts es)"
    unfolding calc_categoryTotals_def category_fold
      keys_add_all [OF numeric_Nil ordinary_categories [OF assms(1)]]
    by simp
  show ?thesis
    using m k
    unfolding calc_categoryTotals_def category_fold
      value_add_all [OF numeric_Nil ordinary_categories [OF assms(1)]] category_total_eq
      running_sum_def number_at_def
    by simp
qed





lemma set_entries: "set (entries t) = set t"
  unfolding entries_def by auto

lemma distinct_entries:
  assumes "distinct (map fst t)"
  shows "distinct (map fst (entries t))"
proof -
  have d: "distinct t" and i: "inj_on fst (set t)"
    using assms by (simp_all add: distinct_map)
  have "distinct (entries t)"
    unfolding entries_def using d by auto
  moreover have "inj_on fst (set (entries t))"
    unfolding set_entries by (rule i)
  ultimately show ?thesis by (simp add: distinct_map)
qed
















text \<open>An ordinary category is a key from the row on that adds to it.\<close>

lemma category_amounts_append:
  "category_amounts (es @ es') = category_amounts es @ category_amounts es'"
  unfolding category_amounts_def by simp

lemma category_key_present:
  assumes "amount_ok x" "ordinary (category_or_other (category x))"
  shows "category_or_other (category x) \<in> fst ` set (calc_categoryTotals ev (es @ x # es'))"
proof -
  define t where "t = add_all ev [] (category_amounts es)"
  have c: "category_amounts (x # es')
             = (category_or_other (category x), amount_value x) # category_amounts es'"
    unfolding category_amounts_def using assms(1) by simp
  have e: "calc_categoryTotals ev (es @ x # es')
             = add_all ev (add_amount ev (category_or_other (category x)) (amount_value x) t)
                 (category_amounts es')"
    unfolding calc_categoryTotals_def category_fold category_amounts_append c add_all_append
      add_all_Cons t_def by simp
  show ?thesis
    unfolding e
    using ordinary_key_added [OF assms(2), of ev "amount_value x" t] keys_add_all_mono
    by blast
qed

text \<open>The loop over the budgets as a \<open>map\<close> over a \<open>filter\<close>.\<close>

lemma comparison_step_eq:
  "comparison_step ev start end (calc_categoryTotals ev es) acc b
     = acc @ (if has_category b then [expected_comparison ev start end es b] else [])"
  by (auto simp: comparison_step_def has_category_def expected_comparison_def
                 Let_def split: option.splits)

lemma comparison_fold:
  "foldl (comparison_step ev start end (calc_categoryTotals ev es)) acc bs
     = acc @ map (expected_comparison ev start end es) (filter has_category bs)"
  by (induction bs arbitrary: acc) (simp_all add: comparison_step_eq)



subsection \<open>Evaluation\<close>

lemmas parse_defs = iso_date_time_def iso_date_def iso_time_def number_of_def is_digit_def
  digit_of_def MakeDay_def DaysInMonth_def DaysInYear_def DayFromYear_def MonthStart_def
  msPerDay_def Let_def

lemmas float_defs = parseFloat_string_def signed_literal_def magnitude_def is_space_def
  is_digit_def digit_of_def exponent_part_def pow10_def or_zero_def Let_def

lemmas object_defs = add_amount_def get_property_def set_property_def inherited_def
  Object_prototype_functions_def falsy_property_def js_plus_def lookup_or_zero_def
  ToNumber_def Let_def

lemmas entries_defs = entries_def is_array_index_def is_digit_def digit_of_def

lemma total_scenario: "calc_totalExpenses scenario_expenses = Num 100"
  by (simp add: calc_totalExpenses_def scenario_expenses_def total_step_def float_defs
        whole_arith)

lemma categories_scenario:
  "calc_categoryTotals ev scenario_expenses
     = [(''Food'', Number (Num 80)), (''Transport'', Number (Num 20))]"
  by (simp add: calc_categoryTotals_def scenario_expenses_def category_step_def float_defs
        category_or_other_def object_defs whole_arith)

lemma handler_ok:
  assumes "validate ev sd ed = Inr (start, end)"
    and "Expense_findAll db uid start end = Some es"
    and "Budget_findAll db uid = Some bs"
  shows "handler ev db uid sd ed =
           ([FetchExpenses uid start end, FetchBudgets uid],
            Json_200 (build_report ev start end es bs))"
  unfolding handler_def using assms by simp

lemma report_fields:
  "totalExpenses (build_report ev start end es bs) = calc_totalExpenses es"
  "expensesByCategory (build_report ev start end es bs) = entries (calc_categoryTotals ev es)"
  "expensesByMonth (build_report ev start end es bs) = entries (calc_monthTotals ev es)"
  "budgetComparison (build_report ev start end es bs)
     = calc_budgetComparison ev start end (calc_categoryTotals ev es) bs"
  unfolding build_report_def Let_def by simp_all

lemma midnight_fields:
  assumes "0 \<le> utc_offset ev" "utc_offset ev < 1440" "t mod msPerDay = 0"
  shows "getFullYear ev t = YearFromDay (t div msPerDay)"
    and "getMonth ev t = MonthFromDay (t div msPerDay)"
  unfolding getFullYear_def getMonth_def Day_LocalTime_midnight [OF assms] by simp_all

lemmas calendar_defs = YearFromDay_def MonthFromDay_def DateFromDay_def DayWithinYear_def
  InLeapYear_def DaysInYear_def DayFromYear_def MonthStart_def msPerDay_def Let_def

lemmas string_defs = toString_int_def padStart2_def dec_nat.simps digit_char_def

lemma validate_scenario:
  "validate ev (Some ''2024-01-01'') (Some ''2024-02-29'') = Inr (1704067200000, 1709164800000)"
  unfolding validate_def missing_def Date_of_query_def Date_parse_def by (simp add: parse_defs)

lemma scenario_dates:
  "Date_of_column ev (Some ''2024-01-05'') = Some 1704412800000"
  "Date_of_column ev (Some ''2024-02-10'') = Some 1707523200000"
  "Date_of_column ev (Some ''2024-01-20'') = Some 1705708800000"
  unfolding Date_of_column_def Date_parse_def by (simp_all add: parse_defs)

lemma months_scenario:
  assumes "0 \<le> utc_offset ev" "utc_offset ev < 1440"
  shows "calc_monthTotals ev scenario_expenses
           = [(''2024-01'', Number (Num 70)), (''2024-02'', Number (Num 30))]"
proof -
  have k: "month_key ev 1704412800000 = ''2024-01''"
    "month_key ev 1707523200000 = ''2024-02''"
    "month_key ev 1705708800000 = ''2024-01''"
    unfolding month_key_def
    by (simp_all add: midnight_fields [OF assms] calendar_defs string_defs)
  show ?thesis
    unfolding calc_monthTotals_def scenario_expenses_def
    by (simp add: month_step_def scenario_dates k float_defs object_defs whole_arith)
qed

lemma adjust_scenario:
  assumes "0 \<le> utc_offset ev" "utc_offset ev < 1440"
  shows "adjustedBudgetAmount ev 1704067200000 1709164800000 (Some ''monthly'') (Num 100) = Num 200"
  unfolding adjustedBudgetAmount_def period_or_monthly_def monthDiff_eq
  by (simp add: midnight_fields [OF assms] calendar_defs whole_arith)

lemma scenario_entries:
  "entries [(''Food'', Number (Num 80)), (''Transport'', Number (Num 20))]
     = [(''Food'', Number (Num 80)), (''Transport'', Number (Num 20))]"
  "entries [(''2024-01'', Number (Num 70)), (''2024-02'', Number (Num 30))]
     = [(''2024-01'', Number (Num 70)), (''2024-02'', Number (Num 30))]"
  by (simp_all add: entries_defs)

subsection \<open>The handler and its parts\<close>

lemma responses_distinct:
  "InvalidInput \<noteq> InvalidFormat" "InvalidInput \<noteq> InvalidRange" "InvalidFormat \<noteq> InvalidRange"
  "InvalidFormat \<noteq> InvalidInput" "InvalidRange \<noteq> InvalidInput" "InvalidRange \<noteq> InvalidFormat"
  "ServerError \<noteq> InvalidInput" "ServerError \<noteq> InvalidFormat" "ServerError \<noteq> InvalidRange"
  "Json_200 r \<noteq> InvalidInput" "Json_200 r \<noteq> InvalidFormat" "Json_200 r \<noteq> InvalidRange"
  unfolding InvalidInput_def InvalidFormat_def InvalidRange_def ServerError_def by simp_all

lemma handler_rejects: "validate ev sd ed = Inl r \<Longrightarrow> handler ev db uid sd ed = ([], r)"
  unfolding handler_def by simp

lemma handler_fetches:
  "validate ev sd ed = Inr (start, end) \<Longrightarrow>
     fst (handler ev db uid sd ed) \<noteq> []
     \<and> take 1 (fst (handler ev db uid sd ed)) = [FetchExpenses uid start end]
     \<and> (snd (handler ev db uid sd ed) = ServerError
          \<or> (\<exists>r. snd (handler ev db uid sd ed) = Json_200 r))"
  unfolding handler_def by (auto split: option.splits)

lemma validate_scenario_utc:
  "validate utc (Some ''2024-01-01'') (Some ''2024-02-29'') = Inr (1704067200000, 1709164800000)"
  by (rule validate_scenario)

lemma utc_offset_range: "0 \<le> utc_offset utc" "utc_offset utc < 1440"
  unfolding utc_def by simp_all

lemma store_of_fetches:
  "Expense_findAll (store_of es bs) uid start end = Some es"
  "Budget_findAll (store_of es bs) uid = Some bs"
  unfolding store_of_def by simp_all

lemma skip_amount:
  assumes "\<not> amount_ok x"
  shows "total_step acc x = acc" and "category_step ev t x = t" and "month_step ev t x = t"
  using assms unfolding amount_ok_def amount_value_def total_step_def category_step_def month_step_def
  by (simp_all add: Let_def split: option.splits)

lemma skip_date:
  assumes "\<not> date_ok ev x"
  shows "month_step ev t x = t"
  using assms unfolding date_ok_def month_step_def by simp

lemma build_report_skip_amount:
  assumes "\<not> amount_ok x"
  shows "build_report ev start end (es @ x # es') bs = build_report ev start end (es @ es') bs"
  unfolding build_report_def calc_totalExpenses_def calc_categoryTotals_def calc_monthTotals_def
  by (simp add: skip_amount [OF assms])

lemma months_skip_date:
  assumes "\<not> date_ok ev x"
  shows "calc_monthTotals ev (es @ x # es') = calc_monthTotals ev (es @ es')"
  unfolding calc_monthTotals_def by (simp add: skip_date [OF assms])

text \<open>The total and the totals by category do not read the date of a row.\<close>

lemma date_not_read:
  "total_step acc (x\<lparr>date := d\<rparr>) = total_step acc x"
  "category_step ev t (x\<lparr>date := d\<rparr>) = category_step ev t x"
  unfolding total_step_def category_step_def by simp_all

lemma totals_without_date:
  "calc_totalExpenses (es @ x\<lparr>date := d\<rparr> # es') = calc_totalExpenses (es @ x # es')"
  "calc_categoryTotals ev (es @ x\<lparr>date := d\<rparr> # es') = calc_categoryTotals ev (es @ x # es')"
  unfolding calc_totalExpenses_def calc_categoryTotals_def by (simp_all add: date_not_read)

text \<open>A missing amount is read as 0.\<close>

lemma missing_amount_is_zero:
  assumes "falsy (amount x)"
  shows "total_step acc (x\<lparr>amount := JNumber (Num 0)\<rparr>) = total_step acc x"
    and "category_step ev t (x\<lparr>amount := JNumber (Num 0)\<rparr>) = category_step ev t x"
    and "month_step ev t (x\<lparr>amount := JNumber (Num 0)\<rparr>) = month_step ev t x"
  using assms unfolding total_step_def category_step_def month_step_def or_zero_def by simp_all

lemma build_report_missing_amount:
  assumes "falsy (amount x)"
  shows "build_report ev start end (es @ x\<lparr>amount := JNumber (Num 0)\<rparr> # es') bs
           = build_report ev start end (es @ x # es') bs"
  unfolding build_report_def calc_totalExpenses_def calc_categoryTotals_def calc_monthTotals_def
  by (simp add: missing_amount_is_zero [OF assms])

lemma total_last:
  assumes "amount_ok x"
  shows "calc_totalExpenses (es @ [x]) = fadd (calc_totalExpenses es) (amount_value x)"
  using assms unfolding calc_totalExpenses_def total_step_def amount_ok_def amount_value_def
  by (simp add: Let_def)

lemma comprehension_as_list: "{g e | e. e \<in> set es \<and> P e} = set (map g (filter P es))"
  by auto

lemma category_total_nonzero:
  assumes "category_total es c \<noteq> Num 0"
  shows "\<exists>e \<in> set es. amount_ok e \<and> category_or_other (category e) = c"
proof (rule ccontr)
  assume "\<not> (\<exists>e \<in> set es. amount_ok e \<and> category_or_other (category e) = c)"
  then have "filter (\<lambda>e. amount_ok e \<and> category_or_other (category e) = c) es = []"
    by (auto simp: filter_empty_conv)
  then show False using assms unfolding category_total_def running_sum_def by simp
qed


lemma adjust_monthly:
  "adjustedBudgetAmount ev start end (Some ''monthly'') a
     = fmul a (Num (of_int (max 1 (monthDiff ev start end))))"
  unfolding adjustedBudgetAmount_def period_or_monthly_def Let_def by simp

lemma adjust_unknown:
  assumes "p \<noteq> []" "p \<noteq> ''weekly''" "p \<noteq> ''monthly''" "p \<noteq> ''quarterly''" "p \<noteq> ''yearly''"
  shows "adjustedBudgetAmount ev start end (Some p) a = a"
  using assms unfolding adjustedBudgetAmount_def period_or_monthly_def Let_def by simp

lemma comparison_member:
  assumes "b \<in> set bs" "has_category b"
  shows "expected_comparison ev start end es b
           \<in> set (budgetComparison (build_report ev start end es bs))"
  unfolding report_fields calc_budgetComparison_def comparison_fold using assms by simp

lemma expected_budget:
  "budget (expected_comparison ev start end es b)
     = adjustedBudgetAmount ev start end (period b) (parse_budgetAmount (amount b))"
  unfolding expected_comparison_def Let_def by simp

lemma empty_report:
  "calc_totalExpenses [] = Num 0" "entries (calc_categoryTotals ev []) = []"
  "entries (calc_monthTotals ev []) = []" "calc_categoryTotals ev [] = []" "entries [] = []"
  unfolding calc_totalExpenses_def calc_categoryTotals_def calc_monthTotals_def entries_def
  by simp_all

text \<open>
  The month count of the monthly branch is the number of calendar months, in local time,
  from the month of the start to the month of the end, and it is at least 1 when the start
  is not after the end.
\<close>

lemma monthDiff_months_spanned: "monthDiff ev start end = months_spanned ev start end"
  unfolding monthDiff_eq months_spanned_def by simp

lemma months_spanned_pos: "start \<le> end \<Longrightarrow> 1 \<le> months_spanned ev start end"
  using monthDiff_pos [of start "end" ev] unfolding monthDiff_months_spanned .

subsection \<open>The scenario of the specification at UTC and east of it\<close>

text \<open>
  On a server whose zone is UTC or east of it by less than a day, midnight UTC is on the
  same day in local time, and the handler answers the request of the scenario with the
  report of the specification, whatever the date parser does on other formats.
\<close>

lemma scenario_east_of_utc:
  assumes "0 \<le> utc_offset ev" and "utc_offset ev < 1440"
    and "Expense_findAll db uid 1704067200000 1709164800000 = Some scenario_expenses"
    and "Budget_findAll db uid = Some scenario_budgets"
  shows "handler ev db uid (Some ''2024-01-01'') (Some ''2024-02-29'') =
     ([FetchExpenses uid 1704067200000 1709164800000, FetchBudgets uid],
      Json_200
        \<lparr>totalExpenses = Num 100,
         expensesByCategory = [(''Food'', Number (Num 80)), (''Transport'', Number (Num 20))],
         expensesByMonth = [(''2024-01'', Number (Num 70)), (''2024-02'', Number (Num 30))],
         budgetComparison =
           [\<lparr>cat = ''Food'', budget = Num 200, actual = Number (Num 80),
             difference = Num 120\<rparr>]\<rparr>)"
proof -
  have b: "calc_budgetComparison ev 1704067200000 1709164800000
             [(''Food'', Number (Num 80)), (''Transport'', Number (Num 20))] scenario_budgets
           = [\<lparr>cat = ''Food'', budget = Num 200, actual = Number (Num 80),
               difference = Num 120\<rparr>]"
    unfolding calc_budgetComparison_def scenario_budgets_def
    by (simp add: comparison_step_def parse_budgetAmount_def object_defs
                  adjust_scenario [OF assms(1,2)] whole_arith)
  have "build_report ev 1704067200000 1709164800000 scenario_expenses scenario_budgets
        = \<lparr>totalExpenses = Num 100,
           expensesByCategory = [(''Food'', Number (Num 80)), (''Transport'', Number (Num 20))],
           expensesByMonth = [(''2024-01'', Number (Num 70)), (''2024-02'', Number (Num 30))],
           budgetComparison =
             [\<lparr>cat = ''Food'', budget = Num 200, actual = Number (Num 80),
               difference = Num 120\<rparr>]\<rparr>"
    unfolding build_report_def Let_def total_scenario categories_scenario
      months_scenario [OF assms(1,2)] scenario_entries b by simp
  then show ?thesis
    using handler_ok [OF validate_scenario assms(3,4)] by simp
qed

text \<open>
  The monthly branch: the factor is the month count of the two bounds after
  \<^verbatim>\<open>setDate(1)\<close>, which keeps the local year and month of a date; for a start that is not
  after the end it is the number of local calendar months of the range.
\<close>

lemma monthly_local_months:
  assumes "start \<le> end"
  shows "adjustedBudgetAmount ev start end (Some ''monthly'') a
           = fmul a (Num (of_int (max 1
               ((getFullYear ev (setDate ev 1 end) * 12 + getMonth ev (setDate ev 1 end))
                 - (getFullYear ev (setDate ev 1 start) * 12 + getMonth ev (setDate ev 1 start))
                 + 1))))"
    and "getFullYear ev (setDate ev 1 t) = getFullYear ev t"
    and "getMonth ev (setDate ev 1 t) = getMonth ev t"
    and "getDate ev (setDate ev 1 t) = 1"
    and "adjustedBudgetAmount ev start end (Some ''monthly'') a
           = fmul a (Num (of_int (months_spanned ev start end)))"
proof -
  have p: "max 1 (months_spanned ev start end) = months_spanned ev start end"
    using months_spanned_pos [OF assms, of ev] by simp
  show "adjustedBudgetAmount ev start end (Some ''monthly'') a
           = fmul a (Num (of_int (max 1
               ((getFullYear ev (setDate ev 1 end) * 12 + getMonth ev (setDate ev 1 end))
                 - (getFullYear ev (setDate ev 1 start) * 12 + getMonth ev (setDate ev 1 start))
                 + 1))))"
    unfolding adjust_monthly monthDiff_def Let_def by (simp add: algebra_simps)
  show "adjustedBudgetAmount ev start end (Some ''monthly'') a
           = fmul a (Num (of_int (months_spanned ev start end)))"
    unfolding adjust_monthly monthDiff_months_spanned p ..
  show "getFullYear ev (setDate ev 1 t) = getFullYear ev t"
    "getMonth ev (setDate ev 1 t) = getMonth ev t" "getDate ev (setDate ev 1 t) = 1"
    by (rule getFullYear_setDate getMonth_setDate getDate_setDate)+
qed

subsection \<open>Categories that are names of members of \<^verbatim>\<open>Object.prototype\<close>\<close>

text \<open>
  An expense of 50 under the category \<^verbatim>\<open>__proto__\<close> is counted in the total and gets no
  entry by category: the assignment to \<^verbatim>\<open>categoryTotals['__proto__']\<close> is ignored. Under the
  category \<^verbatim>\<open>constructor\<close> it gets an entry whose amount is a string, the text of the
  inherited function followed by the amount.
\<close>

lemma inherited_names_as_categories:
  "totalExpenses (build_report utc 1704067200000 1709164800000 [named ''__proto__''] []) = Num 50"
  "expensesByCategory (build_report utc 1704067200000 1709164800000 [named ''__proto__''] []) = []"
  "expensesByCategory (build_report utc 1704067200000 1709164800000 [named ''constructor''] [])
     = [(''constructor'', Text ''function Object() { [native code] }50'')]"
proof -
  have a: "parseFloat (or_zero (amount (named c))) = Num 50" for c
    unfolding named_def by (simp add: float_defs whole_arith)
  have c: "category (named c) = Some c" for c unfolding named_def by simp
  have s: "Number_toString (number_format utc) (Num 50) = ''50''"
    by (simp add: Number_toString_def string_defs)
  show "totalExpenses (build_report utc 1704067200000 1709164800000 [named ''__proto__''] []) = Num 50"
    unfolding report_fields calc_totalExpenses_def by (simp add: total_step_def a whole_arith)
  show "expensesByCategory (build_report utc 1704067200000 1709164800000 [named ''__proto__''] []) = []"
    unfolding report_fields calc_categoryTotals_def
    by (simp add: category_step_def a c category_or_other_def object_defs entries_defs)
  show "expensesByCategory (build_report utc 1704067200000 1709164800000 [named ''constructor''] [])
     = [(''constructor'', Text ''function Object() { [native code] }50'')]"
    unfolding report_fields calc_categoryTotals_def
    by (simp add: category_step_def a c category_or_other_def object_defs entries_defs s
          function_source_def)
qed

subsection \<open>The parsed amount of a budget and the other periods\<close>

text \<open>
  The amount of a budget is parsed as a number or as the string of a decimal column, and
  is 0 when it cannot be parsed. The quarterly count is the month count divided by 3 and
  rounded up, the yearly count the difference of the local years, plus one when the month
  and day of the end are not before those of the start; both are at least 1. From
  2023-01-01 to 2024-02-29 at UTC these are 5 quarters and 2 years.
\<close>

lemma budget_amount_parsed:
  "parse_budgetAmount (JNumber (Num 100)) = Num 100"
  "parse_budgetAmount (JString ''100.00'') = Num 100"
  "parse_budgetAmount (JString ''abc'') = Num 0"
  "parse_budgetAmount JNull = Num 0"
  unfolding parse_budgetAmount_def by (simp_all add: float_defs whole_arith)

lemma adjust_quarterly:
  "adjustedBudgetAmount ev start end (Some ''quarterly'') a
     = fmul a (Num (of_int (max 1 (ceil_div (monthDiff ev start end) 3))))"
  unfolding adjustedBudgetAmount_def period_or_monthly_def Let_def by simp

lemma adjust_yearly:
  "adjustedBudgetAmount ev start end (Some ''yearly'') a
     = fmul a (Num (of_int (max 1 (getFullYear ev end - getFullYear ev start
         + (if getMonth ev end > getMonth ev start
               \<or> (getMonth ev end = getMonth ev start \<and> getDate ev end \<ge> getDate ev start)
            then 1 else 0)))))"
  unfolding adjustedBudgetAmount_def period_or_monthly_def Let_def by simp

lemma other_periods_at_utc:
  "adjustedBudgetAmount utc 1672531200000 1709164800000 (Some ''quarterly'') (Num 100) = Num 500"
  "adjustedBudgetAmount utc 1672531200000 1709164800000 (Some ''yearly'') (Num 100) = Num 200"
  "adjustedBudgetAmount utc 1672531200000 1709164800000 (Some ''monthly'') (Num 100) = Num 1400"
proof -
  have f: "getFullYear utc 1672531200000 = 2023" "getMonth utc 1672531200000 = 0"
    "getFullYear utc 1709164800000 = 2024" "getMonth utc 1709164800000 = 1"
    "getDate utc 1672531200000 = 1" "getDate utc 1709164800000 = 29"
    unfolding getFullYear_def getMonth_def getDate_def LocalTime_def Day_def
    by (simp_all add: utc_def msPerMinute_def calendar_defs)
  show "adjustedBudgetAmount utc 1672531200000 1709164800000 (Some ''quarterly'') (Num 100) = Num 500"
    unfolding adjust_quarterly monthDiff_eq f by (simp add: ceil_div_def whole_arith)
  show "adjustedBudgetAmount utc 1672531200000 1709164800000 (Some ''yearly'') (Num 100) = Num 200"
    unfolding adjust_yearly f by (simp add: whole_arith)
  show "adjustedBudgetAmount utc 1672531200000 1709164800000 (Some ''monthly'') (Num 100) = Num 1400"
    unfolding adjust_monthly monthDiff_eq f by (simp add: whole_arith)
qed

section \<open>The claims\<close>

text \<open>
  Claim C1. The scenario of the specification: three expenses (50 and 30 for Food on
  2024-01-05 and 2024-02-10, 20 for Transport on 2024-01-20), the range from 2024-01-01
  to 2024-02-29 and one monthly budget of 100 for Food; the claim is a total of 100, Food
  80 and Transport 20 by category, 70 for 2024-01 and 30 for 2024-02 by month, and one
  comparison entry for Food with budget 200, actual 80 and difference 120. The handler
  does not give this report on every server. The bounds of the request are date-only
  strings, that is midnight UTC, and the handler reads years and months in the local time
  of the server. Five hours west of UTC the two bounds are in the evening of 2023-12-31
  and of 2024-02-28, the month count is 3 instead of 2, and the handler answers with
  budget 300 and difference 220. (At UTC and east of it the handler gives the report of
  the claim: lemma \<open>scenario_east_of_utc\<close>.)
\<close>

theorem scenario_west_of_utc:
  "handler new_york (store_of scenario_expenses scenario_budgets) 1
      (Some ''2024-01-01'') (Some ''2024-02-29'') =
     ([FetchExpenses 1 1704067200000 1709164800000, FetchBudgets 1],
      Json_200
        \<lparr>totalExpenses = Num 100,
         expensesByCategory = [(''Food'', Number (Num 80)), (''Transport'', Number (Num 20))],
         expensesByMonth = [(''2024-01'', Number (Num 70)), (''2024-02'', Number (Num 30))],
         budgetComparison =
           [\<lparr>cat = ''Food'', budget = Num 300, actual = Number (Num 80),
             difference = Num 220\<rparr>]\<rparr>)"
proof -
  have f: "getFullYear new_york 1704067200000 = 2023" "getMonth new_york 1704067200000 = 11"
    "getFullYear new_york 1709164800000 = 2024" "getMonth new_york 1709164800000 = 1"
    unfolding getFullYear_def getMonth_def LocalTime_def Day_def
    by (simp_all add: new_york_def msPerMinute_def calendar_defs)
  have a: "adjustedBudgetAmount new_york 1704067200000 1709164800000 (Some ''monthly'') (Num 100)
             = Num 300"
    unfolding adjustedBudgetAmount_def period_or_monthly_def monthDiff_eq f
    by (simp add: whole_arith)
  have k: "month_key new_york 1704412800000 = ''2024-01''"
    "month_key new_york 1707523200000 = ''2024-02''"
    "month_key new_york 1705708800000 = ''2024-01''"
    unfolding month_key_def getFullYear_def getMonth_def LocalTime_def Day_def
    by (simp_all add: new_york_def msPerMinute_def calendar_defs string_defs)
  have m: "calc_monthTotals new_york scenario_expenses
             = [(''2024-01'', Number (Num 70)), (''2024-02'', Number (Num 30))]"
    unfolding calc_monthTotals_def scenario_expenses_def
    by (simp add: month_step_def scenario_dates k float_defs object_defs whole_arith)
  have b: "calc_budgetComparison new_york 1704067200000 1709164800000
             [(''Food'', Number (Num 80)), (''Transport'', Number (Num 20))] scenario_budgets
           = [\<lparr>cat = ''Food'', budget = Num 300, actual = Number (Num 80),
               difference = Num 220\<rparr>]"
    unfolding calc_budgetComparison_def scenario_budgets_def
    by (simp add: comparison_step_def parse_budgetAmount_def object_defs a whole_arith)
  have "build_report new_york 1704067200000 1709164800000 scenario_expenses scenario_budgets
        = \<lparr>totalExpenses = Num 100,
           expensesByCategory = [(''Food'', Number (Num 80)), (''Transport'', Number (Num 20))],
           expensesByMonth = [(''2024-01'', Number (Num 70)), (''2024-02'', Number (Num 30))],
           budgetComparison =
             [\<lparr>cat = ''Food'', budget = Num 300, actual = Number (Num 80),
               difference = Num 220\<rparr>]\<rparr>"
    unfolding build_report_def Let_def total_scenario categories_scenario m scenario_entries b
    by simp
  then show ?thesis
    using handler_ok [OF validate_scenario store_of_fetches] by simp
qed

text \<open>
  Claim C2. For a monthly budget the scaled amount is the amount times the number of
  months from the month of the start to the month of the end, at least 1, where the
  handler takes the months after \<^verbatim>\<open>setDate(1)\<close> in the local time of the server (lemma
  \<open>monthly_local_months\<close>). The particular case of the claim, a range inside one
  calendar month giving the amount itself, fails west of UTC: the request from
  2024-02-01 to 2024-02-29 lies inside February, its bounds are midnight UTC, and five
  hours west of UTC they fall on the 31st of January and the 28th of February in local
  time. The handler counts 2 months and answers with a budget of 200 for the monthly
  budget of 100.
\<close>

theorem one_month_west_of_utc:
  "handler new_york (store_of [] scenario_budgets) 1 (Some ''2024-02-01'') (Some ''2024-02-29'') =
     ([FetchExpenses 1 1706745600000 1709164800000, FetchBudgets 1],
      Json_200
        \<lparr>totalExpenses = Num 0, expensesByCategory = [], expensesByMonth = [],
         budgetComparison =
           [\<lparr>cat = ''Food'', budget = Num 200, actual = Number (Num 0),
             difference = Num 200\<rparr>]\<rparr>)"
proof -
  have v: "validate new_york (Some ''2024-02-01'') (Some ''2024-02-29'')
             = Inr (1706745600000, 1709164800000)"
    unfolding validate_def missing_def Date_of_query_def Date_parse_def by (simp add: parse_defs)
  have f: "getFullYear new_york 1706745600000 = 2024" "getMonth new_york 1706745600000 = 0"
    "getFullYear new_york 1709164800000 = 2024" "getMonth new_york 1709164800000 = 1"
    unfolding getFullYear_def getMonth_def LocalTime_def Day_def
    by (simp_all add: new_york_def msPerMinute_def calendar_defs)
  have a: "adjustedBudgetAmount new_york 1706745600000 1709164800000 (Some ''monthly'') (Num 100)
             = Num 200"
    unfolding adjustedBudgetAmount_def period_or_monthly_def monthDiff_eq f
    by (simp add: whole_arith)
  have "build_report new_york 1706745600000 1709164800000 [] scenario_budgets
        = \<lparr>totalExpenses = Num 0, expensesByCategory = [], expensesByMonth = [],
           budgetComparison =
             [\<lparr>cat = ''Food'', budget = Num 200, actual = Number (Num 0),
               difference = Num 200\<rparr>]\<rparr>"
    unfolding build_report_def Let_def empty_report calc_budgetComparison_def scenario_budgets_def
    by (simp add: comparison_step_def parse_budgetAmount_def object_defs a whole_arith)
  then show ?thesis
    using handler_ok [OF v store_of_fetches] by simp
qed

text \<open>
  Claim C3. The handler answers \<open>InvalidInput\<close> exactly when \<^verbatim>\<open>startDate\<close> or \<^verbatim>\<open>endDate\<close> is
  missing (absent or empty); it answers \<open>InvalidFormat\<close> exactly when both are there and one
  of them does not parse to a date; it answers \<open>InvalidRange\<close> exactly when both are there,
  both parse, and the end is before the start. These are the three checks in their order.
  The handler has made no call to the store exactly when it gives one of these three
  answers: a rejected request fetches nothing, and the answer carries no data.
\<close>

theorem validation_order:
  "(snd (handler ev db uid sd ed) = InvalidInput \<longleftrightarrow> missing sd \<or> missing ed)
   \<and> (snd (handler ev db uid sd ed) = InvalidFormat \<longleftrightarrow>
        \<not> missing sd \<and> \<not> missing ed \<and> (Date_of_query ev sd = None \<or> Date_of_query ev ed = None))
   \<and> (snd (handler ev db uid sd ed) = InvalidRange \<longleftrightarrow>
        \<not> missing sd \<and> \<not> missing ed
        \<and> (\<exists>start end. Date_of_query ev sd = Some start \<and> Date_of_query ev ed = Some end \<and> end < start))
   \<and> (fst (handler ev db uid sd ed) = [] \<longleftrightarrow>
        snd (handler ev db uid sd ed) = InvalidInput
        \<or> snd (handler ev db uid sd ed) = InvalidFormat
        \<or> snd (handler ev db uid sd ed) = InvalidRange)"
proof (cases "validate ev sd ed")
  case (Inl r)
  have h: "handler ev db uid sd ed = ([], r)" by (rule handler_rejects [OF Inl])
  show ?thesis
    using Inl unfolding h validate_def
    by (auto simp: responses_distinct split: if_splits option.splits)
next
  case (Inr p)
  obtain start "end" where p: "p = (start, end)" by (cases p)
  have f: "fst (handler ev db uid sd ed) \<noteq> []"
    and s: "snd (handler ev db uid sd ed) = ServerError
          \<or> (\<exists>r. snd (handler ev db uid sd ed) = Json_200 r)"
    using handler_fetches [OF Inr [unfolded p]] by simp_all
  have n: "snd (handler ev db uid sd ed) \<noteq> InvalidInput"
    "snd (handler ev db uid sd ed) \<noteq> InvalidFormat"
    "snd (handler ev db uid sd ed) \<noteq> InvalidRange"
    using s by (auto simp: responses_distinct)
  show ?thesis
    using Inr f n unfolding validate_def
    by (auto split: if_splits option.splits)
qed

theorem validation_order_witness:
  "handler utc failing_store 1 None (Some ''2024-02-29'') = ([], InvalidInput)
   \<and> handler utc failing_store 1 (Some ''yesterday'') (Some ''2024-02-29'') = ([], InvalidFormat)
   \<and> handler utc failing_store 1 (Some ''2024-03-01'') (Some ''2024-02-29'') = ([], InvalidRange)"
proof -
  have p: "Date_of_query utc (Some ''2024-02-29'') = Some 1709164800000"
    "Date_of_query utc (Some ''2024-03-01'') = Some 1709251200000"
    "Date_of_query utc (Some ''yesterday'') = None"
    "Date_of_query utc None = None"
    unfolding Date_of_query_def Date_parse_def
    by (simp_all add: parse_defs utc_def no_other_formats_def)
  have m: "missing None" "\<not> missing (Some ''2024-02-29'')" "\<not> missing (Some ''yesterday'')"
    "\<not> missing (Some ''2024-03-01'')"
    unfolding missing_def by simp_all
  have a: "handler utc failing_store 1 None (Some ''2024-02-29'') = ([], InvalidInput)"
    using validation_order [of utc failing_store 1 None "Some ''2024-02-29''"] m
    by (simp add: prod_eq_iff)
  have b: "handler utc failing_store 1 (Some ''yesterday'') (Some ''2024-02-29'')
             = ([], InvalidFormat)"
    using validation_order [of utc failing_store 1 "Some ''yesterday''" "Some ''2024-02-29''"] m p
    by (simp add: prod_eq_iff)
  have c: "handler utc failing_store 1 (Some ''2024-03-01'') (Some ''2024-02-29'')
             = ([], InvalidRange)"
    using validation_order [of utc failing_store 1 "Some ''2024-03-01''" "Some ''2024-02-29''"] m p
    by (simp add: prod_eq_iff)
  show ?thesis using a b c by simp
qed

text \<open>
  Claim C4. The loop over the budgets gives one entry for each budget that has a category,
  in the order of the budgets (lemma \<open>comparison_fold\<close>), with the scaled amount as
  \<open>budget\<close>. The \<open>actual\<close> of the claim, the total of the category or 0 when the category
  has no expenses, is not what the handler gives for every category: \<^verbatim>\<open>categoryTotals\<close> is
  an object created by \<^verbatim>\<open>{}\<close>, and the lookup \<^verbatim>\<open>categoryTotals[category] || 0\<close> finds the members
  of \<^verbatim>\<open>Object.prototype\<close>. For a budget of 100 whose category is \<^verbatim>\<open>toString\<close>, and no
  expenses at all, the \<open>actual\<close> is the function \<^verbatim>\<open>Object.prototype.toString\<close> and the
  \<open>difference\<close> is \<^verbatim>\<open>NaN\<close>, where the claim has 0 and 100.
\<close>

theorem inherited_member_as_actual:
  "handler utc (store_of [] [inherited_name]) 1 (Some ''2024-01-01'') (Some ''2024-01-31'') =
     ([FetchExpenses 1 1704067200000 1706659200000, FetchBudgets 1],
      Json_200
        \<lparr>totalExpenses = Num 0, expensesByCategory = [], expensesByMonth = [],
         budgetComparison =
           [\<lparr>cat = ''toString'', budget = Num 100, actual = Function ''toString'',
             difference = NaN\<rparr>]\<rparr>)"
proof -
  have v: "validate utc (Some ''2024-01-01'') (Some ''2024-01-31'')
             = Inr (1704067200000, 1706659200000)"
    unfolding validate_def missing_def Date_of_query_def Date_parse_def by (simp add: parse_defs)
  have f: "getFullYear utc 1704067200000 = 2024" "getMonth utc 1704067200000 = 0"
    "getFullYear utc 1706659200000 = 2024" "getMonth utc 1706659200000 = 0"
    unfolding getFullYear_def getMonth_def LocalTime_def Day_def
    by (simp_all add: utc_def msPerMinute_def calendar_defs)
  have a: "adjustedBudgetAmount utc 1704067200000 1706659200000 (Some ''monthly'') (Num 100)
             = Num 100"
    unfolding adjustedBudgetAmount_def period_or_monthly_def monthDiff_eq f
    by (simp add: whole_arith)
  have l: "lookup_or_zero [] ''toString'' = Function ''toString''"
    by (simp add: object_defs)
  have n: "ToNumber (Function ''toString'') = NaN"
    by (simp add: ToNumber_def StringToNumber_def function_source_def float_defs)
  have "build_report utc 1704067200000 1706659200000 [] [inherited_name]
        = \<lparr>totalExpenses = Num 0, expensesByCategory = [], expensesByMonth = [],
           budgetComparison =
             [\<lparr>cat = ''toString'', budget = Num 100, actual = Function ''toString'',
               difference = NaN\<rparr>]\<rparr>"
    unfolding build_report_def Let_def empty_report calc_budgetComparison_def inherited_name_def
    by (simp add: comparison_step_def parse_budgetAmount_def l n a fsub_NaN)
  then show ?thesis
    using handler_ok [OF v store_of_fetches] by simp
qed




text \<open>
  Claim C6 as stated fails in two ways. An expense of 10 for Food whose date does not
  parse is left out of \<^verbatim>\<open>expensesByMonth\<close> only: it is counted in \<^verbatim>\<open>totalExpenses\<close> and in
  \<^verbatim>\<open>expensesByCategory\<close>, which are 0 and empty without it. And an expense without an
  amount, for which \<^verbatim>\<open>parseFloat\<close> gives \<^verbatim>\<open>NaN\<close>, is not skipped: the handler reads
  \<^verbatim>\<open>expense.amount || 0\<close>, that is 0, and the expense gets its entry by category and by
  month.
\<close>

theorem undated_expense_counted:
  "\<not> date_ok utc undated
   \<and> totalExpenses (build_report utc 1704067200000 1709164800000 [undated] []) = Num 10
   \<and> expensesByCategory (build_report utc 1704067200000 1709164800000 [undated] [])
       = [(''Food'', Number (Num 10))]
   \<and> expensesByMonth (build_report utc 1704067200000 1709164800000 [undated] []) = []
   \<and> totalExpenses (build_report utc 1704067200000 1709164800000 [] []) = Num 0
   \<and> expensesByCategory (build_report utc 1704067200000 1709164800000 [] []) = []
   \<and> parseFloat (amount unfilled) = NaN
   \<and> expensesByCategory (build_report utc 1704067200000 1709164800000 [unfilled] [])
       = [(''Rent'', Number (Num 0))]
   \<and> expensesByMonth (build_report utc 1704067200000 1709164800000 [unfilled] [])
       = [(''2024-01'', Number (Num 0))]"
proof -
  have d: "Date_of_column utc (date undated) = None"
    unfolding undated_def Date_of_column_def Date_parse_def
    by (simp add: parse_defs utc_def no_other_formats_def)
  have a: "parseFloat (or_zero (amount undated)) = Num 10"
    "parseFloat (or_zero (amount unfilled)) = Num 0"
    unfolding undated_def unfilled_def by (simp_all add: float_defs whole_arith)
  have c: "category undated = Some ''Food''" "category unfilled = Some ''Rent''"
    unfolding undated_def unfilled_def by simp_all
  have u: "Date_of_column utc (date unfilled) = Some 1704412800000"
    unfolding unfilled_def by (simp add: scenario_dates)
  have k: "month_key utc 1704412800000 = ''2024-01''"
    unfolding month_key_def
    by (simp add: midnight_fields [OF utc_offset_range] calendar_defs string_defs)
  have n: "parseFloat (amount unfilled) = NaN" unfolding unfilled_def by simp
  show ?thesis
    unfolding report_fields date_ok_def calc_totalExpenses_def calc_categoryTotals_def
      calc_monthTotals_def
    by (simp add: total_step_def category_step_def month_step_def d a c u k n
          category_or_other_def object_defs entries_defs whole_arith)
qed

text \<open>
  Claim C6, amended. An expense whose amount is there and cannot be parsed, so that
  \<^verbatim>\<open>parseFloat(expense.amount || 0)\<close> is \<^verbatim>\<open>NaN\<close>, is skipped by all three aggregations: the
  report is the one without it. An expense whose amount is missing (\<^verbatim>\<open>null\<close>, empty or 0)
  is not skipped: it is read with the amount 0. An expense whose date cannot be parsed is
  skipped by the aggregation by month, the only one that reads the date:
  \<^verbatim>\<open>expensesByMonth\<close> is the one without it, while \<^verbatim>\<open>totalExpenses\<close> and \<^verbatim>\<open>expensesByCategory\<close>
  are what they are with any other date in its place; when its amount is read, the
  amount is added to the total, and its category, when it is not the name of a member of
  \<^verbatim>\<open>Object.prototype\<close>, has its entry. None of this fails the report: for a valid range
  and successful fetches the answer is the report, whatever the rows are.
\<close>

theorem defective_records_skipped:
  "(\<not> amount_ok x \<longrightarrow>
      build_report ev start end (es @ x # es') bs = build_report ev start end (es @ es') bs)
   \<and> (falsy (amount x) \<longrightarrow>
      amount_ok x
      \<and> build_report ev start end (es @ x # es') bs
          = build_report ev start end (es @ x\<lparr>amount := JNumber (Num 0)\<rparr> # es') bs)
   \<and> (\<not> date_ok ev x \<longrightarrow>
      expensesByMonth (build_report ev start end (es @ x # es') bs)
        = expensesByMonth (build_report ev start end (es @ es') bs))
   \<and> totalExpenses (build_report ev start end (es @ x\<lparr>date := d\<rparr> # es') bs)
        = totalExpenses (build_report ev start end (es @ x # es') bs)
   \<and> expensesByCategory (build_report ev start end (es @ x\<lparr>date := d\<rparr> # es') bs)
        = expensesByCategory (build_report ev start end (es @ x # es') bs)
   \<and> (amount_ok x \<longrightarrow>
      totalExpenses (build_report ev start end (es @ [x]) bs)
        = fadd (totalExpenses (build_report ev start end es bs)) (amount_value x))
   \<and> (amount_ok x \<and> ordinary (category_or_other (category x)) \<longrightarrow>
      category_or_other (category x)
        \<in> fst ` set (expensesByCategory (build_report ev start end (es @ x # es') bs)))
   \<and> (validate ev sd ed = Inr (start, end)
        \<and> Expense_findAll db uid start end = Some (es @ x # es')
        \<and> Budget_findAll db uid = Some bs \<longrightarrow>
      snd (handler ev db uid sd ed) = Json_200 (build_report ev start end (es @ x # es') bs))"
proof -
  have 1: "\<not> amount_ok x \<longrightarrow>
      build_report ev start end (es @ x # es') bs = build_report ev start end (es @ es') bs"
    using build_report_skip_amount by blast
  have 2: "falsy (amount x) \<longrightarrow>
      amount_ok x
      \<and> build_report ev start end (es @ x # es') bs
          = build_report ev start end (es @ x\<lparr>amount := JNumber (Num 0)\<rparr> # es') bs"
    using build_report_missing_amount [of x ev start "end" es es' bs]
    unfolding amount_ok_def amount_value_def or_zero_def by simp
  have 3: "\<not> date_ok ev x \<longrightarrow>
      expensesByMonth (build_report ev start end (es @ x # es') bs)
        = expensesByMonth (build_report ev start end (es @ es') bs)"
    unfolding report_fields using months_skip_date [of ev x es es'] by simp
  have 4: "totalExpenses (build_report ev start end (es @ x\<lparr>date := d\<rparr> # es') bs)
        = totalExpenses (build_report ev start end (es @ x # es') bs)"
    "expensesByCategory (build_report ev start end (es @ x\<lparr>date := d\<rparr> # es') bs)
        = expensesByCategory (build_report ev start end (es @ x # es') bs)"
    unfolding report_fields totals_without_date by simp_all
  have 5: "amount_ok x \<longrightarrow>
      totalExpenses (build_report ev start end (es @ [x]) bs)
        = fadd (totalExpenses (build_report ev start end es bs)) (amount_value x)"
    unfolding report_fields using total_last by blast
  have 6: "amount_ok x \<and> ordinary (category_or_other (category x)) \<longrightarrow>
      category_or_other (category x)
        \<in> fst ` set (expensesByCategory (build_report ev start end (es @ x # es') bs))"
    unfolding report_fields set_entries using category_key_present by blast
  have 7: "validate ev sd ed = Inr (start, end)
        \<and> Expense_findAll db uid start end = Some (es @ x # es')
        \<and> Budget_findAll db uid = Some bs \<longrightarrow>
      snd (handler ev db uid sd ed) = Json_200 (build_report ev start end (es @ x # es') bs)"
    using handler_ok [of ev sd ed start "end" db uid "es @ x # es'" bs] by simp
  show ?thesis using 1 2 3 4 5 6 7 by blast
qed

theorem defective_records_skipped_witness:
  "build_report utc 1704067200000 1709164800000 (scenario_expenses @ unpriced # []) scenario_budgets
     = build_report utc 1704067200000 1709164800000 (scenario_expenses @ []) scenario_budgets
   \<and> expensesByMonth
       (build_report utc 1704067200000 1709164800000 (scenario_expenses @ undated # []) scenario_budgets)
     = expensesByMonth
       (build_report utc 1704067200000 1709164800000 (scenario_expenses @ []) scenario_budgets)
   \<and> totalExpenses
       (build_report utc 1704067200000 1709164800000 (scenario_expenses @ [undated]) scenario_budgets)
     = Num 110
   \<and> ''Food'' \<in> fst ` set (expensesByCategory
       (build_report utc 1704067200000 1709164800000 ([] @ undated # []) scenario_budgets))
   \<and> build_report utc 1704067200000 1709164800000 ([] @ unfilled # []) []
     = build_report utc 1704067200000 1709164800000
         ([] @ unfilled\<lparr>amount := JNumber (Num 0)\<rparr> # []) []
   \<and> snd (handler utc (store_of (scenario_expenses @ unpriced # []) scenario_budgets) 1
            (Some ''2024-01-01'') (Some ''2024-02-29''))
     = Json_200 (build_report utc 1704067200000 1709164800000
                  (scenario_expenses @ unpriced # []) scenario_budgets)"
proof -
  have a: "\<not> amount_ok unpriced"
    unfolding amount_ok_def amount_value_def unpriced_def by (simp add: float_defs)
  have d: "\<not> date_ok utc undated"
    unfolding date_ok_def undated_def Date_of_column_def Date_parse_def
    by (simp add: parse_defs utc_def no_other_formats_def)
  have v: "amount_value undated = Num 10" "amount_ok undated"
    "category_or_other (category undated) = ''Food''" "ordinary ''Food''"
    unfolding amount_ok_def amount_value_def undated_def
    by (simp_all add: float_defs whole_arith category_or_other_def ordinary_def
          Object_prototype_functions_def)
  have f: "falsy (amount unfilled)" unfolding unfilled_def by simp
  have t: "totalExpenses
       (build_report utc 1704067200000 1709164800000 scenario_expenses scenario_budgets) = Num 100"
    unfolding report_fields by (rule total_scenario)
  note u = defective_records_skipped [of unpriced utc 1704067200000 1709164800000
      scenario_expenses "[]" scenario_budgets _ "Some ''2024-01-01''" "Some ''2024-02-29''"
      "store_of (scenario_expenses @ unpriced # []) scenario_budgets" 1]
  note w = defective_records_skipped [of undated utc 1704067200000 1709164800000
      scenario_expenses "[]" scenario_budgets]
  note w0 = defective_records_skipped [of undated utc 1704067200000 1709164800000
      "[]" "[]" scenario_budgets]
  note n = defective_records_skipped [of unfilled utc 1704067200000 1709164800000 "[]" "[]" "[]"]
  have 1: "build_report utc 1704067200000 1709164800000 (scenario_expenses @ unpriced # []) scenario_budgets
     = build_report utc 1704067200000 1709164800000 (scenario_expenses @ []) scenario_budgets"
    using u a by blast
  have 2: "expensesByMonth
       (build_report utc 1704067200000 1709164800000 (scenario_expenses @ undated # []) scenario_budgets)
     = expensesByMonth
       (build_report utc 1704067200000 1709164800000 (scenario_expenses @ []) scenario_budgets)"
    using w d by blast
  have "totalExpenses
       (build_report utc 1704067200000 1709164800000 (scenario_expenses @ [undated]) scenario_budgets)
     = fadd (totalExpenses
         (build_report utc 1704067200000 1709164800000 scenario_expenses scenario_budgets))
         (amount_value undated)"
    using w v(2) by blast
  then have 3: "totalExpenses
       (build_report utc 1704067200000 1709164800000 (scenario_expenses @ [undated]) scenario_budgets)
     = Num 110"
    unfolding t v(1) by (simp add: whole_arith)
  have "category_or_other (category undated) \<in> fst ` set (expensesByCategory
       (build_report utc 1704067200000 1709164800000 ([] @ undated # []) scenario_budgets))"
    using w0 v(2,4) unfolding v(3) by blast
  then have 4: "''Food'' \<in> fst ` set (expensesByCategory
       (build_report utc 1704067200000 1709164800000 ([] @ undated # []) scenario_budgets))"
    unfolding v(3) .
  have 5: "build_report utc 1704067200000 1709164800000 ([] @ unfilled # []) []
     = build_report utc 1704067200000 1709164800000
         ([] @ unfilled\<lparr>amount := JNumber (Num 0)\<rparr> # []) []"
    using n f by blast
  have 6: "snd (handler utc (store_of (scenario_expenses @ unpriced # []) scenario_budgets) 1
            (Some ''2024-01-01'') (Some ''2024-02-29''))
     = Json_200 (build_report utc 1704067200000 1709164800000
                  (scenario_expenses @ unpriced # []) scenario_budgets)"
    using u validate_scenario_utc store_of_fetches by blast
  show ?thesis using 1 2 3 4 5 6 by blast
qed

text \<open>
  Claim C7 as stated fails for a total of zero. With one expense of 0.00 for Food, the
  total of Food is 0 and \<^verbatim>\<open>expensesByCategory\<close> has the entry of Food, with amount 0. The
  same holds for an expense without an amount, which \<^verbatim>\<open>expense.amount || 0\<close> reads as 0.
\<close>

theorem zero_total_has_entry:
  "category_total [free_item] ''Food'' = Num 0
   \<and> expensesByCategory (build_report utc 1704067200000 1709164800000 [free_item] [])
       = [(''Food'', Number (Num 0))]
   \<and> category_total [unfilled] ''Rent'' = Num 0
   \<and> expensesByCategory (build_report utc 1704067200000 1709164800000 [unfilled] [])
       = [(''Rent'', Number (Num 0))]"
proof -
  have a: "parseFloat (or_zero (amount free_item)) = Num 0"
    "parseFloat (or_zero (amount unfilled)) = Num 0"
    unfolding free_item_def unfilled_def by (simp_all add: float_defs whole_arith)
  have c: "category free_item = Some ''Food''" "category unfilled = Some ''Rent''"
    unfolding free_item_def unfilled_def by simp_all
  show ?thesis
    unfolding report_fields calc_categoryTotals_def category_total_def running_sum_def
    by (simp add: category_step_def amount_value_def amount_ok_def a c category_or_other_def
          object_defs entries_defs whole_arith)
qed

text \<open>
  Claim C7, amended. When no category of an expense is the name of a member of
  \<^verbatim>\<open>Object.prototype\<close>, \<^verbatim>\<open>expensesByCategory\<close> has exactly one entry for each category for
  which there is an expense whose amount is read (a missing or empty category counts as
  \<^verbatim>\<open>other\<close>), and no other entry; the amount of an entry is the total of its category,
  which may be zero. In particular every category whose total is not zero has its entry,
  and an expense without a category whose amount is read gives the entry of \<^verbatim>\<open>other\<close>.
\<close>

theorem category_entries:
  assumes "\<forall>e \<in> set es. amount_ok e \<longrightarrow> ordinary (category_or_other (category e))"
  shows "distinct (map fst (expensesByCategory (build_report ev start end es bs)))
   \<and> fst ` set (expensesByCategory (build_report ev start end es bs))
       = {category_or_other (category e) | e. e \<in> set es \<and> amount_ok e}
   \<and> (\<forall>p \<in> set (expensesByCategory (build_report ev start end es bs)).
         snd p = Number (category_total es (fst p)))
   \<and> (\<forall>c. category_total es c \<noteq> Num 0 \<longrightarrow>
         (c, Number (category_total es c))
           \<in> set (expensesByCategory (build_report ev start end es bs)))
   \<and> (\<forall>e \<in> set es. amount_ok e \<and> (category e = None \<or> category e = Some []) \<longrightarrow>
         ''other'' \<in> fst ` set (expensesByCategory (build_report ev start end es bs)))"
proof -
  have v: "\<forall>p \<in> set (calc_categoryTotals ev es). snd p = Number (category_total es (fst p))"
    using categories_value [OF assms] by auto
  have n: "(c, Number (category_total es c)) \<in> set (calc_categoryTotals ev es)"
    if "category_total es c \<noteq> Num 0" for c
  proof -
    have "c \<in> fst ` set (calc_categoryTotals ev es)"
      unfolding categories_keys [OF assms] using category_total_nonzero [OF that] by auto
    then obtain w where "(c, w) \<in> set (calc_categoryTotals ev es)" by auto
    then show ?thesis using categories_value [OF assms] by auto
  qed
  have o: "''other'' \<in> fst ` set (calc_categoryTotals ev es)"
    if "e \<in> set es" "amount_ok e" "category e = None \<or> category e = Some []" for e
  proof -
    have "category_or_other (category e) = ''other''"
      using that(3) unfolding category_or_other_def by auto
    then show ?thesis
      unfolding categories_keys [OF assms] using that(1,2) by force
  qed
  show ?thesis
    unfolding report_fields set_entries categories_keys [OF assms]
    using distinct_entries [OF categories_distinct] v n o
    unfolding categories_keys [OF assms] by simp
qed

theorem category_entries_witness:
  "fst ` set (expensesByCategory
      (build_report utc 1704067200000 1709164800000 (unpriced # unlabelled # scenario_expenses) []))
     = {''other'', ''Food'', ''Transport''}
   \<and> (''Food'', Number (Num 80)) \<in> set (expensesByCategory
      (build_report utc 1704067200000 1709164800000 (unpriced # unlabelled # scenario_expenses) []))
   \<and> (''other'', Number (Num 5)) \<in> set (expensesByCategory
      (build_report utc 1704067200000 1709164800000 (unpriced # unlabelled # scenario_expenses) []))"
proof -
  have h: "\<forall>e \<in> set (unpriced # unlabelled # scenario_expenses).
             amount_ok e \<longrightarrow> ordinary (category_or_other (category e))"
    unfolding scenario_expenses_def unpriced_def unlabelled_def
    by (simp add: category_or_other_def ordinary_def Object_prototype_functions_def)
  have k: "{category_or_other (category e) | e.
              e \<in> set (unpriced # unlabelled # scenario_expenses) \<and> amount_ok e}
           = {''other'', ''Food'', ''Transport''}"
    unfolding comprehension_as_list scenario_expenses_def unpriced_def unlabelled_def
    by (simp add: amount_ok_def amount_value_def float_defs whole_arith category_or_other_def)
  have c: "category_total (unpriced # unlabelled # scenario_expenses) ''Food'' = Num 80"
    "category_total (unpriced # unlabelled # scenario_expenses) ''other'' = Num 5"
    unfolding category_total_def running_sum_def scenario_expenses_def unpriced_def unlabelled_def
    by (simp_all add: category_or_other_def amount_ok_def amount_value_def float_defs whole_arith)
  note ce = category_entries [OF h, of utc 1704067200000 1709164800000 "[]"]
  have 1: "fst ` set (expensesByCategory
      (build_report utc 1704067200000 1709164800000 (unpriced # unlabelled # scenario_expenses) []))
     = {''other'', ''Food'', ''Transport''}"
    using ce [THEN conjunct2, THEN conjunct1] unfolding k .
  have n: "category_total (unpriced # unlabelled # scenario_expenses) ''Food'' \<noteq> Num 0"
    "category_total (unpriced # unlabelled # scenario_expenses) ''other'' \<noteq> Num 0"
    unfolding c by simp_all
  have 2: "(''Food'', Number (category_total (unpriced # unlabelled # scenario_expenses) ''Food''))
      \<in> set (expensesByCategory
          (build_report utc 1704067200000 1709164800000 (unpriced # unlabelled # scenario_expenses) []))"
    using ce [THEN conjunct2, THEN conjunct2, THEN conjunct2, THEN conjunct1] n(1) by blast
  have 3: "(''other'', Number (category_total (unpriced # unlabelled # scenario_expenses) ''other''))
      \<in> set (expensesByCategory
          (build_report utc 1704067200000 1709164800000 (unpriced # unlabelled # scenario_expenses) []))"
    using ce [THEN conjunct2, THEN conjunct2, THEN conjunct2, THEN conjunct1] n(2) by blast
  show ?thesis using 1 2 3 unfolding c by blast
qed




text \<open>
  Claim C9. For a budget whose period is a non-empty string other than \<^verbatim>\<open>weekly\<close>,
  \<^verbatim>\<open>monthly\<close>, \<^verbatim>\<open>quarterly\<close> and \<^verbatim>\<open>yearly\<close>, the scaled amount is the amount itself, for every
  range; the report succeeds, and the entry of the budget is in \<^verbatim>\<open>budgetComparison\<close> with
  the parsed amount as its \<open>budget\<close>.
\<close>

theorem unknown_period_unscaled:
  assumes "p \<noteq> []" and "p \<noteq> ''weekly''" and "p \<noteq> ''monthly''"
    and "p \<noteq> ''quarterly''" and "p \<noteq> ''yearly''"
    and "validate ev sd ed = Inr (start, end)"
    and "Expense_findAll db uid start end = Some es"
    and "Budget_findAll db uid = Some bs"
    and "b \<in> set bs" and "has_category b" and "period b = Some p"
  shows "adjustedBudgetAmount ev start end (Some p) a = a
       \<and> snd (handler ev db uid sd ed) = Json_200 (build_report ev start end es bs)
       \<and> expected_comparison ev start end es b
           \<in> set (budgetComparison (build_report ev start end es bs))
       \<and> budget (expected_comparison ev start end es b) = parse_budgetAmount (amount b)"
  using adjust_unknown [OF assms(1-5)] handler_ok [OF assms(6-8)]
    comparison_member [OF assms(9,10)] assms(11)
  by (simp add: expected_budget)

theorem unknown_period_unscaled_witness:
  "adjustedBudgetAmount utc 1704067200000 1709164800000 (Some ''biannual'') (Num 50) = Num 50
   \<and> snd (handler utc (store_of scenario_expenses [biannual]) 1
        (Some ''2024-01-01'') (Some ''2024-02-29''))
       = Json_200 (build_report utc 1704067200000 1709164800000 scenario_expenses [biannual])
   \<and> \<lparr>cat = ''Food'', budget = Num 50, actual = Number (Num 80), difference = Num (- 30)\<rparr>
       \<in> set (budgetComparison
                (build_report utc 1704067200000 1709164800000 scenario_expenses [biannual]))
   \<and> budget (expected_comparison utc 1704067200000 1709164800000 scenario_expenses biannual)
       = Num 50"
proof -
  have p: "''biannual'' \<noteq> []" "''biannual'' \<noteq> ''weekly''" "''biannual'' \<noteq> ''monthly''"
    "''biannual'' \<noteq> ''quarterly''" "''biannual'' \<noteq> ''yearly''"
    by simp_all
  have b: "biannual \<in> set [biannual]" "has_category biannual" "period biannual = Some ''biannual''"
    "parse_budgetAmount (amount biannual) = Num 50"
    unfolding biannual_def has_category_def parse_budgetAmount_def by simp_all
  have e: "expected_comparison utc 1704067200000 1709164800000 scenario_expenses biannual
             = \<lparr>cat = ''Food'', budget = Num 50, actual = Number (Num 80),
                difference = Num (- 30)\<rparr>"
    unfolding expected_comparison_def categories_scenario b(4)
    by (simp add: biannual_def adjust_unknown object_defs whole_arith)
  show ?thesis
    using unknown_period_unscaled [OF p validate_scenario_utc
        store_of_fetches(1) [of scenario_expenses "[biannual]" 1]
        store_of_fetches(2) [of scenario_expenses "[biannual]" 1] b(1-3), of "Num 50"]
    unfolding b(4) e by simp
qed



end
